theory Spec2Isabelle
  imports Complex_Main
begin

section \<open>Values\<close>

text \<open>
  JavaScript numbers are IEEE-754 doubles. A feature value is a finite double, embedded
  as the \<^typ>\<open>real\<close> it denotes. The split values and the feature-subsample count are
  computed with the rounding of the source (section Doubles). The impurities that steer
  the split search are embedded as reals, every operator read as the exact operation;
  the last section embeds them once more with rounding. The three shapes an impurity
  can take in the source are kept apart: an ordinary number, \<open>NaN\<close> (from \<open>0 / 0\<close>) and
  \<open>null\<close> (\<open>calculateImpurity\<close> with an unknown criterion).
\<close>

datatype jsnum = Num real | NaN | Null

text \<open>
  The errors of the source. \<open>train\<close> and \<open>predict\<close> throw \<open>Error\<close> objects with
  two different messages; a property read of \<open>undefined\<close> and \<open>reduce\<close> of an empty
  array with no initial value throw a \<open>TypeError\<close>.
\<close>

datatype error = DimensionMismatch | UntrainedModel | TypeError

text \<open>Running a callback over an array, where the callback may throw: the first error wins.\<close>

fun traverse :: "('a \<Rightarrow> error + 'b) \<Rightarrow> 'a list \<Rightarrow> error + 'b list" where
  "traverse f [] = Inr []"
| "traverse f (x # xs) =
     (case f x of
        Inl e \<Rightarrow> Inl e
      | Inr v \<Rightarrow> (case traverse f xs of Inl e \<Rightarrow> Inl e | Inr vs \<Rightarrow> Inr (v # vs)))"

section \<open>Doubles\<close>

text \<open>
  Where the claims depend on the rounding of the source, the arithmetic is embedded
  with it: an operator returns the double nearest to the exact result, ties going to
  the even significand. \<open>roundHalfEven\<close> is the nearest integer, ties to even.
\<close>

definition roundHalfEven :: "real \<Rightarrow> int" where
  "roundHalfEven x =
     (let n = \<lfloor>x\<rfloor>; d = x - of_int n
      in if d < 1 / 2 then n else if 1 / 2 < d then n + 1 else if even n then n else n + 1)"

text \<open>
  Rounding to a 53-bit significand with the exponent left unbounded: for
  \<open>2^e \<le> |x| < 2^(e+1)\<close> the doubles are the integer multiples of \<open>2^(e-52)\<close>.
\<close>

definition binary64 :: "real \<Rightarrow> real" where
  "binary64 x =
     (if x = 0 then 0
      else let ulp = 2 powr (of_int \<lfloor>log 2 \<bar>x\<bar>\<rfloor> - 52)
           in of_int (roundHalfEven (x / ulp)) * ulp)"

text \<open>
  The two ends of the exponent range. Below \<open>2^-1022\<close> the doubles are the integer
  multiples of \<open>2^-1074\<close> (the subnormal numbers); a result that rounds to \<open>2^1024\<close> or
  beyond is an infinity. A finite double is written as the real it denotes (the two
  zeros are not told apart: they compare equal).
\<close>

datatype double = Finite real | PlusInfinity | MinusInfinity

definition roundDouble :: "real \<Rightarrow> real" where
  "roundDouble x =
     (if \<bar>x\<bar> < 1 / 2 ^ 1022 then of_int (roundHalfEven (x * 2 ^ 1074)) / 2 ^ 1074
      else binary64 x)"

definition toDouble :: "real \<Rightarrow> double" where
  "toDouble x =
     (let r = roundDouble x
      in if 2 ^ 1024 \<le> r then PlusInfinity
         else if r \<le> - (2 ^ 1024) then MinusInfinity
         else Finite r)"

text \<open>\<open>a + b\<close> of two finite doubles, and \<open>a * c\<close> for a finite factor other than 0.\<close>

definition addDouble :: "real \<Rightarrow> real \<Rightarrow> double" where
  "addDouble a b = toDouble (a + b)"

definition timesDouble :: "double \<Rightarrow> real \<Rightarrow> double" where
  "timesDouble a c =
     (case a of
        Finite r \<Rightarrow> toDouble (r * c)
      | PlusInfinity \<Rightarrow> (if c < 0 then MinusInfinity else PlusInfinity)
      | MinusInfinity \<Rightarrow> (if c < 0 then PlusInfinity else MinusInfinity))"

text \<open>\<open>v < t\<close> for a finite double \<open>v\<close>, and the order \<open>a <= b\<close> of two doubles.\<close>

definition belowDouble :: "real \<Rightarrow> double \<Rightarrow> bool" where
  "belowDouble v t =
     (case t of Finite r \<Rightarrow> v < r | PlusInfinity \<Rightarrow> True | MinusInfinity \<Rightarrow> False)"

fun doubleLe :: "double \<Rightarrow> double \<Rightarrow> bool" where
  "doubleLe MinusInfinity b = True"
| "doubleLe a PlusInfinity = True"
| "doubleLe (Finite a) (Finite b) = (a \<le> b)"
| "doubleLe a b = False"

section \<open>Array helpers\<close>

text \<open>
  Modelled from the spec: the module \<open>arrays\<close> (\<open>unique\<close>, \<open>valueCounts\<close>, \<open>getShape\<close>,
  \<open>transpose\<close>, \<open>sum\<close>, \<open>scale\<close>) is not among the sources; the spec lists the operations
  it must provide. \<open>unique\<close> keeps the first occurrence of every value, in order of first
  occurrence; \<open>valueCounts\<close> pairs every unique value with its number of occurrences, in
  the same order.
\<close>

fun unique :: "'a list \<Rightarrow> 'a list" where
  "unique [] = []"
| "unique (x # xs) = x # unique (filter (\<lambda>y. y \<noteq> x) xs)"

definition valueCounts :: "'a list \<Rightarrow> ('a \<times> nat) list" where
  "valueCounts xs = map (\<lambda>v. (v, length (filter (\<lambda>x. x = v) xs))) (unique xs)"

text \<open>
  Modelled from the spec: \<open>getShape(matrix) -> dimensions\<close>. Only \<open>shape[1]\<close>, the number
  of columns, is read by the source. For a matrix with no row JavaScript yields
  \<open>undefined\<close>; the model reads it as 0 columns (every path of \<open>buildTree\<close> on an empty
  sample set then ends in an error, see \<open>buildTree\<close>).
\<close>

definition getShape :: "'a list list \<Rightarrow> nat list" where
  "getShape A = (case A of [] \<Rightarrow> [0, 0] | r # _ \<Rightarrow> [length A, length r])"

text \<open>Modelled from the spec: \<open>transpose(matrix)\<close>, for a rectangular matrix.\<close>

definition transpose_matrix :: "'a list list \<Rightarrow> 'a list list" where
  "transpose_matrix A = map (\<lambda>j. map (\<lambda>row. row ! j) A) [0..<getShape A ! 1]"

text \<open>
  Modelled from the spec: \<open>sum\<close> adds two vectors element by element and \<open>scale\<close>
  multiplies every element of a vector by a factor, each in double arithmetic (the
  only factor the source passes is \<open>0.5\<close>; an infinity times 0 would be \<open>NaN\<close>).
\<close>

definition sum_arrays :: "real list \<Rightarrow> real list \<Rightarrow> double list" where
  "sum_arrays A B = map (\<lambda>(a, b). addDouble a b) (zip A B)"

definition scale :: "double list \<Rightarrow> real \<Rightarrow> double list" where
  "scale A c = map (\<lambda>a. timesDouble a c) A"

section \<open>Random sampling\<close>

text \<open>
  Modelled from the spec: the module \<open>random\<close> is not among the sources; the spec gives
  \<open>sample(population, count, withReplacement)\<close>, a uniform sampler. The random source is
  made explicit as the sequence of raw draws still to come (an exhausted sequence keeps
  drawing 0); each pick consumes one draw and selects position \<open>draw mod length\<close> of
  the remaining population. Without replacement the picked element leaves the
  population, so the result is a sequence of distinct positions; every ordered
  selection is the result for some sequence of draws.
\<close>

type_synonym rng = "nat list"

definition draw :: "rng \<Rightarrow> nat" where
  "draw g = (case g of [] \<Rightarrow> 0 | r # _ \<Rightarrow> r)"

fun sampleWithoutReplacement :: "'a list \<Rightarrow> nat \<Rightarrow> rng \<Rightarrow> 'a list \<times> rng" where
  "sampleWithoutReplacement pop 0 g = ([], g)"
| "sampleWithoutReplacement pop (Suc k) g =
     (if pop = [] then ([], g)
      else
        let i = draw g mod length pop;
            (rest, g') = sampleWithoutReplacement (take i pop @ drop (Suc i) pop) k (tl g)
        in (pop ! i # rest, g'))"

fun sampleWithReplacement :: "'a list \<Rightarrow> nat \<Rightarrow> rng \<Rightarrow> 'a list \<times> rng" where
  "sampleWithReplacement pop 0 g = ([], g)"
| "sampleWithReplacement pop (Suc k) g =
     (if pop = [] then ([], g)
      else
        let i = draw g mod length pop;
            (rest, g') = sampleWithReplacement pop k (tl g)
        in (pop ! i # rest, g'))"

definition sample :: "'a list \<Rightarrow> nat \<Rightarrow> bool \<Rightarrow> rng \<Rightarrow> 'a list \<times> rng" where
  "sample pop k withReplacement g =
     (if withReplacement then sampleWithReplacement pop k g
      else sampleWithoutReplacement pop k g)"

section \<open>Impurity (decision-tree.js)\<close>

datatype criterion = Gini | Entropy | OtherCriterion

text \<open>
  \<open>gini\<close> and \<open>entropy\<close>: a \<open>reduce\<close> over the unique labels, starting from 0.
  The labels of the source are of any type and are compared with \<open>===\<close>.
\<close>

definition gini :: "'l list \<Rightarrow> real" where
  "gini labels =
     foldl (\<lambda>r label.
              let frac = real (length (filter (\<lambda>x. x = label) labels)) / real (length labels)
              in r + frac * (1 - frac))
       0 (unique labels)"

definition entropy :: "'l list \<Rightarrow> real" where
  "entropy labels =
     foldl (\<lambda>r label.
              let frac = real (length (filter (\<lambda>x. x = label) labels)) / real (length labels)
              in r - frac * ln frac)
       0 (unique labels)"

text \<open>
  \<open>calculateWeightedImpurity\<close>: the impurities of the groups, then
  \<open>reduce((r, a, i) => r + a * groups[i].length / numElements, 0)\<close>. With at least one
  group and no element at all every summand is \<open>a * 0 / 0\<close>, which is \<open>NaN\<close>.
\<close>

definition calculateWeightedImpurity :: "'l list list \<Rightarrow> ('l list \<Rightarrow> real) \<Rightarrow> jsnum" where
  "calculateWeightedImpurity groups impurityCallback =
     (let impurities = map impurityCallback groups;
          numElements = sum_list (map length groups)
      in if groups \<noteq> [] \<and> numElements = 0 then NaN
         else Num (foldl (\<lambda>r (a, group). r + a * real (length group) / real numElements)
                     0 (zip impurities groups)))"

definition calculateImpurity :: "criterion \<Rightarrow> 'l list list \<Rightarrow> jsnum" where
  "calculateImpurity crit groups =
     (case crit of
        Gini \<Rightarrow> calculateWeightedImpurity groups gini
      | Entropy \<Rightarrow> calculateWeightedImpurity groups entropy
      | OtherCriterion \<Rightarrow> Null)"

section \<open>Splitting (decision-tree.js)\<close>

record 'l DataSplitGroups =
  indices :: "nat list list"
  features :: "real list list list"
  labels :: "'l list list"

record 'l DataSplit =
  feature :: nat
  featureValue :: double
  groups :: "'l DataSplitGroups"

text \<open>
  \<open>x[fInd] < splitValue\<close>: a read past the end of a sample is \<open>undefined\<close>, and the
  comparison is then false.
\<close>

definition featureBelow :: "real list \<Rightarrow> nat \<Rightarrow> double \<Rightarrow> bool" where
  "featureBelow x fInd splitValue = (fInd < length x \<and> belowDouble (x ! fInd) splitValue)"

text \<open>
  \<open>splitSamples\<close>: one pass over the samples; sample \<open>i\<close> goes to the first group when
  its feature is below the split value and to the second group otherwise. The callers
  pass as many labels as samples (\<open>train\<close> checks it, and the groups keep it).
\<close>

definition splitSamples ::
  "real list list \<Rightarrow> 'l list \<Rightarrow> nat \<Rightarrow> double \<Rightarrow> 'l DataSplitGroups" where
  "splitSamples XSub ySub fInd splitValue =
     (let lower = filter (\<lambda>i. featureBelow (XSub ! i) fInd splitValue) [0..<length XSub];
          upper = filter (\<lambda>i. \<not> featureBelow (XSub ! i) fInd splitValue) [0..<length XSub]
      in \<lparr> indices = [lower, upper],
           features = [map (\<lambda>i. XSub ! i) lower, map (\<lambda>i. XSub ! i) upper],
           labels = [map (\<lambda>i. ySub ! i) lower, map (\<lambda>i. ySub ! i) upper] \<rparr>)"

text \<open>
  The candidate split values of one feature, from the column of its values: the unique
  values, sorted ascending (the comparator \<open>(a > b) * 2 - 1\<close> orders distinct numbers
  ascending), then \<open>scale(sum(slice(1), slice(0, -1)), 0.5)\<close>: every split value is
  \<open>(b + a) * 0.5\<close> in double arithmetic.
\<close>

definition splitValues :: "real list \<Rightarrow> double list" where
  "splitValues column =
     (let sampleValues = sort (unique column)
      in scale (sum_arrays (tl sampleValues) (butlast sampleValues)) (1 / 2))"

text \<open>
  \<open>gain = baseImpurity - impurity\<close> and \<open>gain > bestSplitGain\<close>. In arithmetic \<open>null\<close>
  counts as 0 and \<open>NaN\<close> propagates; a comparison with \<open>NaN\<close> is false. The best gain
  starts at \<open>-Infinity\<close>, written \<open>None\<close>.
\<close>

definition toNumber :: "jsnum \<Rightarrow> real option" where
  "toNumber v = (case v of Num r \<Rightarrow> Some r | NaN \<Rightarrow> None | Null \<Rightarrow> Some 0)"

definition gainOf :: "jsnum \<Rightarrow> jsnum \<Rightarrow> real option" where
  "gainOf baseImpurity impurity =
     (case (toNumber baseImpurity, toNumber impurity) of
        (Some a, Some b) \<Rightarrow> Some (a - b)
      | _ \<Rightarrow> None)"

definition gainExceeds :: "real option \<Rightarrow> real option \<Rightarrow> bool" where
  "gainExceeds gain bestSplitGain =
     (case gain of
        None \<Rightarrow> False
      | Some a \<Rightarrow> (case bestSplitGain of None \<Rightarrow> True | Some b \<Rightarrow> a > b))"

text \<open>
  The body of the inner loop of \<open>findSplit\<close>. The loop state is the best gain and the
  best split; the three variables \<open>bestSplitFeature\<close>, \<open>bestSplitFeatureValue\<close> and
  \<open>bestSplitGroups\<close> are assigned together, so \<open>None\<close> stands for all three being
  \<open>undefined\<close>.
\<close>

definition considerSplit ::
  "criterion \<Rightarrow> real list list \<Rightarrow> 'l list \<Rightarrow> jsnum \<Rightarrow> nat \<Rightarrow>
   real option \<times> 'l DataSplit option \<Rightarrow> double \<Rightarrow> real option \<times> 'l DataSplit option" where
  "considerSplit crit XSub ySub baseImpurity fInd best splitValue =
     (let grps = splitSamples XSub ySub fInd splitValue;
          impurity = calculateImpurity crit (labels grps);
          gain = gainOf baseImpurity impurity
      in if gainExceeds gain (fst best) \<and> length (features grps ! 0) > 0
            \<and> length (features grps ! 1) > 0
         then (gain, Some \<lparr> feature = fInd, featureValue = splitValue, groups = grps \<rparr>)
         else best)"

definition considerFeature ::
  "criterion \<Rightarrow> real list list \<Rightarrow> 'l list \<Rightarrow> jsnum \<Rightarrow>
   real option \<times> 'l DataSplit option \<Rightarrow> nat \<Rightarrow> real option \<times> 'l DataSplit option" where
  "considerFeature crit XSub ySub baseImpurity best fInd =
     foldl (considerSplit crit XSub ySub baseImpurity fInd) best
       (splitValues (transpose_matrix XSub ! fInd))"

text \<open>
  \<open>findSplit\<close> reads \<open>this.criterion\<close> and \<open>this.numFeaturesInt\<close>; they are the first two
  arguments. It draws the features to consider, so it takes and returns the random source.
\<close>

definition findSplit ::
  "criterion \<Rightarrow> nat \<Rightarrow> real list list \<Rightarrow> 'l list \<Rightarrow> jsnum \<Rightarrow> rng \<Rightarrow>
   'l DataSplit option \<times> rng" where
  "findSplit crit numFeaturesInt XSub ySub baseImpurity g =
     (let shape = getShape XSub;
          possibleIndices = [0..<shape ! 1];
          (fIndices, g') = sample possibleIndices numFeaturesInt False g
      in (snd (foldl (considerFeature crit XSub ySub baseImpurity) (None, None) fIndices), g'))"

text \<open>
  What the loop of \<open>findSplit\<close> keeps true of its best split: it is absent, or its groups
  are the result of \<open>splitSamples\<close> at its feature and value and both groups have a sample.
\<close>

definition acceptedSplit :: "real list list \<Rightarrow> 'l list \<Rightarrow> 'l DataSplit option \<Rightarrow> bool" where
  "acceptedSplit XSub ySub best =
     (case best of
        None \<Rightarrow> True
      | Some s \<Rightarrow> groups s = splitSamples XSub ySub (feature s) (featureValue s)
                  \<and> features (groups s) ! 0 \<noteq> [] \<and> features (groups s) ! 1 \<noteq> [])"

lemma splitSamples_lengths:
  "length (features (splitSamples XSub ySub fInd v) ! 0)
   + length (features (splitSamples XSub ySub fInd v) ! 1) = length XSub"
  using sum_length_filter_compl [of "\<lambda>i. featureBelow (XSub ! i) fInd v" "[0..<length XSub]"]
  by (simp add: splitSamples_def Let_def)

lemma considerSplit_accepted:
  "acceptedSplit XSub ySub (snd best) \<Longrightarrow>
   acceptedSplit XSub ySub (snd (considerSplit crit XSub ySub baseImpurity fInd best v))"
  by (simp add: considerSplit_def Let_def acceptedSplit_def)

lemma foldl_considerSplit_accepted:
  "acceptedSplit XSub ySub (snd best) \<Longrightarrow>
   acceptedSplit XSub ySub (snd (foldl (considerSplit crit XSub ySub baseImpurity fInd) best vs))"
  by (induction vs arbitrary: best) (simp_all add: considerSplit_accepted)

lemma foldl_considerFeature_accepted:
  "acceptedSplit XSub ySub (snd best) \<Longrightarrow>
   acceptedSplit XSub ySub (snd (foldl (considerFeature crit XSub ySub baseImpurity) best fs))"
  by (induction fs arbitrary: best)
    (simp_all add: considerFeature_def foldl_considerSplit_accepted)

lemma findSplit_accepted:
  "acceptedSplit XSub ySub (fst (findSplit crit k XSub ySub baseImpurity g))"
proof -
  have "acceptedSplit XSub ySub (snd (None :: real option, None :: 'a DataSplit option))"
    by (simp add: acceptedSplit_def)
  then show ?thesis
    by (simp add: findSplit_def Let_def split_def foldl_considerFeature_accepted)
qed

lemma findSplit_Some:
  assumes "findSplit crit k XSub ySub baseImpurity g = (Some s, g')"
  shows "groups s = splitSamples XSub ySub (feature s) (featureValue s)"
    and "features (groups s) ! 0 \<noteq> []"
    and "features (groups s) ! 1 \<noteq> []"
proof -
  have "acceptedSplit XSub ySub (Some s)"
    using findSplit_accepted [of XSub ySub crit k baseImpurity g] assms by simp
  then show "groups s = splitSamples XSub ySub (feature s) (featureValue s)"
    and "features (groups s) ! 0 \<noteq> []"
    and "features (groups s) ! 1 \<noteq> []"
    by (auto simp: acceptedSplit_def)
qed

lemma findSplit_smaller:
  assumes "findSplit crit k XSub ySub baseImpurity g = (Some s, g')"
  shows "length (features (groups s) ! 0) < length XSub"
    and "length (features (groups s) ! 1) < length XSub"
proof -
  note s = findSplit_Some [OF assms]
  from splitSamples_lengths [of XSub ySub "feature s" "featureValue s"] s(1)
  have "length (features (groups s) ! 0) + length (features (groups s) ! 1) = length XSub"
    by simp
  with s(2,3) show "length (features (groups s) ! 0) < length XSub"
    and "length (features (groups s) ! 1) < length XSub"
    by (cases "features (groups s) ! 0"; cases "features (groups s) ! 1"; simp)+
qed

section \<open>Building the tree (decision-tree.js)\<close>

text \<open>
  A node object has \<open>type\<close> \<open>'leaf'\<close>, with \<open>impurity\<close> and \<open>prediction\<close>, or \<open>type\<close>
  \<open>'node'\<close>, with \<open>impurity\<close>, \<open>feature\<close>, \<open>featureValue\<close>, \<open>left\<close> and \<open>right\<close>.
\<close>

datatype 'l DecisionTreeNode =
    Leaf jsnum 'l
  | Node jsnum nat double "'l DecisionTreeNode" "'l DecisionTreeNode"

text \<open>
  \<open>valueCounts(ySub).reduce((r, x) => (x[1] > r[1] ? x : r))[0]\<close>: a \<open>reduce\<close> with no
  initial value starts from the first element and throws on an empty array.
\<close>

definition majorityLabel :: "'l list \<Rightarrow> error + 'l" where
  "majorityLabel ySub =
     (case valueCounts ySub of
        [] \<Rightarrow> Inl TypeError
      | c # cs \<Rightarrow> Inr (fst (foldl (\<lambda>r x. if snd x > snd r then x else r) c cs)))"

text \<open>
  \<open>buildTree\<close> reads \<open>this.criterion\<close>, \<open>this.maxDepth\<close> and (through \<open>findSplit\<close>)
  \<open>this.numFeaturesInt\<close>: the first three arguments. When \<open>findSplit\<close> has found no
  split, \<open>groups\<close> is \<open>undefined\<close> and \<open>groups.features\<close> throws a \<open>TypeError\<close>. The left
  subtree is built before the right one. An impurity of exactly 0 needs a label, so
  \<open>ySub[0]\<close> exists in the first branch.
\<close>

function buildTree ::
  "criterion \<Rightarrow> int \<Rightarrow> nat \<Rightarrow> real list list \<Rightarrow> 'l list \<Rightarrow> nat \<Rightarrow> rng \<Rightarrow>
   (error + 'l DecisionTreeNode) \<times> rng" where
  "buildTree crit maxDepth numFeaturesInt XSub ySub depth g =
     (let impurity = calculateImpurity crit [ySub]
      in if impurity = Num 0 then (Inr (Leaf impurity (hd ySub)), g)
         else if maxDepth \<ge> 0 \<and> int depth \<ge> maxDepth
         then (case majorityLabel ySub of
                 Inl e \<Rightarrow> (Inl e, g)
               | Inr prediction \<Rightarrow> (Inr (Leaf impurity prediction), g))
         else (case findSplit crit numFeaturesInt XSub ySub impurity g of
                 (None, g1) \<Rightarrow> (Inl TypeError, g1)
               | (Some split, g1) \<Rightarrow>
                   (case buildTree crit maxDepth numFeaturesInt
                           (features (groups split) ! 0) (labels (groups split) ! 0)
                           (depth + 1) g1 of
                      (Inl e, g2) \<Rightarrow> (Inl e, g2)
                    | (Inr left, g2) \<Rightarrow>
                        (case buildTree crit maxDepth numFeaturesInt
                                (features (groups split) ! 1) (labels (groups split) ! 1)
                                (depth + 1) g2 of
                           (Inl e, g3) \<Rightarrow> (Inl e, g3)
                         | (Inr right, g3) \<Rightarrow>
                             (Inr (Node impurity (feature split) (featureValue split)
                                     left right), g3)))))"
  by pat_completeness auto
termination
proof (relation "measure (\<lambda>(crit, maxDepth, numFeaturesInt, XSub, ySub, depth, g). length XSub)")
  show "wf (measure (\<lambda>(crit, maxDepth, numFeaturesInt, XSub, ySub, depth, g). length XSub))"
    by simp
qed (auto dest: findSplit_smaller [OF sym])

declare buildTree.simps [simp del]

section \<open>The decision tree (decision-tree.js)\<close>

text \<open>
  \<open>numFeatures\<close> is a fraction or one of the strings \<open>'sqrt'\<close> and \<open>'log2'\<close>. The
  options shared by both learners are the fields \<open>criterion\<close>, \<open>numFeatures\<close> and
  \<open>maxDepth\<close>; \<open>numFeaturesInt\<close> and \<open>tree\<close> are \<open>undefined\<close> (\<open>None\<close>) until \<open>train\<close>
  assigns them.
\<close>

datatype numFeaturesOption = Fraction real | Sqrt | Log2

record TreeOptions =
  criterion :: criterion
  numFeatures :: numFeaturesOption
  maxDepth :: int

record 'l DecisionTree = TreeOptions +
  numFeaturesInt :: "nat option"
  tree :: "'l DecisionTreeNode option"

text \<open>The constructor: user options over the defaults \<open>'gini'\<close>, \<open>1.0\<close> and \<open>-1\<close>.\<close>

definition DecisionTree_new ::
  "criterion option \<Rightarrow> numFeaturesOption option \<Rightarrow> int option \<Rightarrow> 'l DecisionTree" where
  "DecisionTree_new crit nf md =
     \<lparr> criterion = (case crit of None \<Rightarrow> Gini | Some c \<Rightarrow> c),
       numFeatures = (case nf of None \<Rightarrow> Fraction 1 | Some n \<Rightarrow> n),
       maxDepth = (case md of None \<Rightarrow> - 1 | Some d \<Rightarrow> d),
       numFeaturesInt = None,
       tree = None \<rparr>"

text \<open>
  The feature-subsample count that \<open>train\<close> resolves, from the option and \<open>shape[1]\<close>:
  \<open>Math.floor(Math.sqrt(n))\<close>, \<open>Math.floor(Math.log2(n))\<close>, or
  \<open>Math.max(1, Math.min(n, Math.floor(numFeatures * n)))\<close>. The fraction is a double
  (a decimal literal \<open>d\<close> of the source denotes the double nearest to \<open>d\<close>), and its
  product with \<open>n\<close> is rounded before the floor is taken; the floor of an infinity is
  that infinity. \<open>Math.sqrt\<close> is correctly rounded; \<open>Math.log2\<close> is an approximation
  left to the engine and is taken as correctly rounded (the language fixes
  \<open>Math.log2(1)\<close> to be 0). Their results here are 0 or at least 1, where \<open>binary64\<close> is
  the rounding. The count is read for \<open>n \<ge> 1\<close> (\<open>Math.log2(0)\<close> is \<open>-Infinity\<close>, where
  \<^term>\<open>log 2 0\<close> is 0).
\<close>

definition resolveNumFeaturesInt :: "numFeaturesOption \<Rightarrow> nat \<Rightarrow> int" where
  "resolveNumFeaturesInt nf n =
     (case nf of
        Sqrt \<Rightarrow> \<lfloor>binary64 (sqrt (real n))\<rfloor>
      | Log2 \<Rightarrow> \<lfloor>binary64 (log 2 (real n))\<rfloor>
      | Fraction f \<Rightarrow>
          (case timesDouble (Finite f) (real n) of
             Finite p \<Rightarrow> max 1 (min (int n) \<lfloor>p\<rfloor>)
           | PlusInfinity \<Rightarrow> max 1 (int n)
           | MinusInfinity \<Rightarrow> 1))"

text \<open>
  \<open>train\<close> returns the error thrown (if any), the object as it is left, and the random
  source. A throw leaves the assignments made before it in place.
\<close>

definition DecisionTree_train ::
  "'l DecisionTree \<Rightarrow> real list list \<Rightarrow> 'l list \<Rightarrow> rng \<Rightarrow>
   error option \<times> 'l DecisionTree \<times> rng" where
  "DecisionTree_train this X y g =
     (if length X \<noteq> length y then (Some DimensionMismatch, this, g)
      else
        let shape = getShape X;
            k = nat (resolveNumFeaturesInt (numFeatures this) (shape ! 1));
            this1 = this \<lparr> numFeaturesInt := Some k \<rparr>
        in case buildTree (criterion this1) (maxDepth this1) k X y 0 g of
             (Inl e, g') \<Rightarrow> (Some e, this1, g')
           | (Inr rootNode, g') \<Rightarrow> (None, this1 \<lparr> tree := Some rootNode \<rparr>, g'))"

text \<open>The loop of \<open>predictSample\<close>, from a node down to a leaf.\<close>

fun descend :: "'l DecisionTreeNode \<Rightarrow> real list \<Rightarrow> 'l" where
  "descend (Leaf impurity prediction) sampleFeatures = prediction"
| "descend (Node impurity f v left right) sampleFeatures =
     (if featureBelow sampleFeatures f v then descend left sampleFeatures
      else descend right sampleFeatures)"

text \<open>\<open>predictSample\<close> on an object with no tree reads \<open>type\<close> of \<open>undefined\<close>.\<close>

definition DecisionTree_predictSample :: "'l DecisionTree \<Rightarrow> real list \<Rightarrow> error + 'l" where
  "DecisionTree_predictSample this sampleFeatures =
     (case tree this of
        None \<Rightarrow> Inl TypeError
      | Some rootNode \<Rightarrow> Inr (descend rootNode sampleFeatures))"

definition DecisionTree_predict :: "'l DecisionTree \<Rightarrow> real list list \<Rightarrow> error + 'l list" where
  "DecisionTree_predict this X =
     (if tree this = None then Inl UntrainedModel
      else traverse (DecisionTree_predictSample this) X)"

section \<open>The random forest (random-forest.js)\<close>

record 'l RandomForest = TreeOptions +
  numTrees :: int
  bootstrap :: bool
  trees :: "'l DecisionTree list option"

text \<open>The constructor: defaults \<open>'gini'\<close>, \<open>1.0\<close>, \<open>-1\<close>, 10 trees, bootstrapping on.\<close>

definition RandomForest_new ::
  "criterion option \<Rightarrow> numFeaturesOption option \<Rightarrow> int option \<Rightarrow> int option \<Rightarrow>
   bool option \<Rightarrow> 'l RandomForest" where
  "RandomForest_new crit nf md nt bs =
     \<lparr> criterion = (case crit of None \<Rightarrow> Gini | Some c \<Rightarrow> c),
       numFeatures = (case nf of None \<Rightarrow> Fraction 1 | Some n \<Rightarrow> n),
       maxDepth = (case md of None \<Rightarrow> - 1 | Some d \<Rightarrow> d),
       numTrees = (case nt of None \<Rightarrow> 10 | Some n \<Rightarrow> n),
       bootstrap = (case bs of None \<Rightarrow> True | Some b \<Rightarrow> b),
       trees = None \<rparr>"

text \<open>
  The samples of one tree: with bootstrapping, as many sample indices as there are
  samples, drawn with replacement, and the samples and labels at these indices;
  without, all samples.
\<close>

definition selectSamples ::
  "bool \<Rightarrow> real list list \<Rightarrow> 'l list \<Rightarrow> rng \<Rightarrow> real list list \<times> 'l list \<times> rng" where
  "selectSamples withBootstrap X y g =
     (if withBootstrap
      then let (treeSamples, g1) = sample [0..<length X] (length X) True g
           in (map (\<lambda>sampleIndex. X ! sampleIndex) treeSamples,
               map (\<lambda>sampleIndex. y ! sampleIndex) treeSamples, g1)
      else (X, y, g))"

text \<open>
  The loop of \<open>train\<close>, by the number of iterations still to run: a new tree, its
  samples, its training, and \<open>this.trees.push(tree)\<close>. A throw of the tree's \<open>train\<close>
  ends the loop with the trees pushed so far.
\<close>

fun trainTrees ::
  "'l RandomForest \<Rightarrow> real list list \<Rightarrow> 'l list \<Rightarrow> nat \<Rightarrow> rng \<Rightarrow>
   error option \<times> 'l RandomForest \<times> rng" where
  "trainTrees this X y 0 g = (None, this, g)"
| "trainTrees this X y (Suc n) g =
     (let newTree = DecisionTree_new (Some (criterion this)) (Some (numFeatures this))
                      (Some (maxDepth this))
      in case selectSamples (bootstrap this) X y g of
           (treeX, treeY, g1) \<Rightarrow>
             (case DecisionTree_train newTree treeX treeY g1 of
                (Some e, trained, g2) \<Rightarrow> (Some e, this, g2)
              | (None, trained, g2) \<Rightarrow>
                  (case trees this of
                     None \<Rightarrow> (Some TypeError, this, g2)
                   | Some ts \<Rightarrow>
                       trainTrees (this \<lparr> trees := Some (ts @ [trained]) \<rparr>) X y n g2)))"

definition RandomForest_train ::
  "'l RandomForest \<Rightarrow> real list list \<Rightarrow> 'l list \<Rightarrow> rng \<Rightarrow>
   error option \<times> 'l RandomForest \<times> rng" where
  "RandomForest_train this X y g =
     (if length X \<noteq> length y then (Some DimensionMismatch, this, g)
      else trainTrees (this \<lparr> trees := Some [] \<rparr>) X y (nat (numTrees this)) g)"

text \<open>
  The vote of \<open>predictSample\<close>: \<open>reduce((r, x) => (x[1] > r[1] ? x : r), [-1, -1])[0]\<close>.
  The initial pair holds the number \<open>-1\<close> where the other pairs hold a label, so the
  result is a label or that \<open>-1\<close> (with no tree at all).
\<close>

datatype 'l vote = Label 'l | MinusOne

definition RandomForest_predictSample :: "'l RandomForest \<Rightarrow> real list \<Rightarrow> error + 'l vote" where
  "RandomForest_predictSample this sampleFeatures =
     (case trees this of
        None \<Rightarrow> Inl TypeError
      | Some ts \<Rightarrow>
          (case traverse (\<lambda>x. DecisionTree_predictSample x sampleFeatures) ts of
             Inl e \<Rightarrow> Inl e
           | Inr predictions \<Rightarrow>
               Inr (fst (foldl (\<lambda>r x. if int (snd x) > snd r then (Label (fst x), int (snd x))
                                        else r)
                           (MinusOne, - 1) (valueCounts predictions)))))"

definition RandomForest_predict ::
  "'l RandomForest \<Rightarrow> real list list \<Rightarrow> error + 'l vote list" where
  "RandomForest_predict this X =
     (if trees this = None then Inl UntrainedModel
      else traverse (RandomForest_predictSample this) X)"

section \<open>Properties of the rounding\<close>

text \<open>
  Within a binade the rounding is the nearest multiple of the spacing; it is odd and
  monotone, so it keeps the order of the numbers it rounds.
\<close>

lemma binary64_in_binade:
  assumes "2 powr (of_int k + 52) \<le> \<bar>x\<bar>" and "\<bar>x\<bar> < 2 powr (of_int k + 53)"
  shows "binary64 x = of_int (roundHalfEven (x / 2 powr of_int k)) * 2 powr of_int k"
proof -
  have "0 < (2 :: real) powr (of_int k + 52)"
    by simp
  with assms(1) have pos: "0 < \<bar>x\<bar>"
    by linarith
  have "of_int (k + 52) \<le> log 2 \<bar>x\<bar>"
    using assms(1) pos by (simp add: le_log_iff)
  moreover have "log 2 \<bar>x\<bar> < of_int (k + 52) + 1"
    using assms(2) pos by (simp add: log_less_iff add.commute)
  ultimately have "\<lfloor>log 2 \<bar>x\<bar>\<rfloor> = k + 52"
    by (simp add: floor_eq_iff)
  then show ?thesis
    using pos by (simp add: binary64_def Let_def)
qed

lemma powr_neg_nat: "(2 :: real) powr of_int (- int n) = 1 / 2 ^ n"
  by (simp add: powr_minus_divide powr_realpow)

lemma binary64_below_two_power:
  assumes "2 ^ 52 / 2 ^ n \<le> \<bar>x\<bar>" and "\<bar>x\<bar> < 2 ^ 53 / 2 ^ n"
  shows "binary64 x = of_int (roundHalfEven (x * 2 ^ n)) / 2 ^ n"
proof -
  have a: "(2 :: real) powr (of_int (- int n) + 52) = 2 ^ 52 / 2 ^ n"
    and b: "(2 :: real) powr (of_int (- int n) + 53) = 2 ^ 53 / 2 ^ n"
    by (simp_all only: powr_add powr_neg_nat powr_numeral) simp_all
  have "binary64 x = of_int (roundHalfEven (x / 2 powr of_int (- int n))) * 2 powr of_int (- int n)"
    by (rule binary64_in_binade) (simp_all only: a b assms)
  then show ?thesis
    by (simp only: powr_neg_nat) simp
qed

lemma roundHalfEven_of_int: "roundHalfEven (of_int m) = m"
  by (simp add: roundHalfEven_def)

lemma roundHalfEven_mono:
  assumes "a \<le> b"
  shows "roundHalfEven a \<le> roundHalfEven b"
proof (cases "\<lfloor>a\<rfloor> = \<lfloor>b\<rfloor>")
  case True
  with assms show ?thesis
    by (auto simp: roundHalfEven_def Let_def)
next
  case False
  with assms have "\<lfloor>a\<rfloor> + 1 \<le> \<lfloor>b\<rfloor>"
    using floor_mono [OF assms] by linarith
  moreover have "roundHalfEven a \<le> \<lfloor>a\<rfloor> + 1"
    by (auto simp: roundHalfEven_def Let_def)
  moreover have "\<lfloor>b\<rfloor> \<le> roundHalfEven b"
    by (auto simp: roundHalfEven_def Let_def)
  ultimately show ?thesis
    by linarith
qed

lemma roundHalfEven_ge: "of_int m \<le> y \<Longrightarrow> m \<le> roundHalfEven y"
  using roundHalfEven_mono [of "of_int m" y] by (simp add: roundHalfEven_of_int)

lemma roundHalfEven_le: "y \<le> of_int m \<Longrightarrow> roundHalfEven y \<le> m"
  using roundHalfEven_mono [of y "of_int m"] by (simp add: roundHalfEven_of_int)

lemma roundHalfEven_minus: "roundHalfEven (- y) = - roundHalfEven y"
proof (cases "y = of_int \<lfloor>y\<rfloor>")
  case True
  then obtain m where "y = of_int m" ..
  then show ?thesis
    using roundHalfEven_of_int [of "- m"] by (simp add: roundHalfEven_of_int)
next
  case False
  have l: "of_int \<lfloor>y\<rfloor> \<le> y" and u: "y < of_int \<lfloor>y\<rfloor> + 1"
    by linarith+
  from False l have "of_int \<lfloor>y\<rfloor> < y"
    by linarith
  with u have f: "\<lfloor>- y\<rfloor> = - \<lfloor>y\<rfloor> - 1"
    by (intro floor_unique) (simp_all, linarith+)
  show ?thesis
    using l u False by (auto simp: roundHalfEven_def Let_def f)
qed


lemma binary64_minus: "binary64 (- x) = - binary64 x"
  by (simp add: binary64_def Let_def roundHalfEven_minus)

lemma binade_of_positive:
  assumes "0 < x"
  shows "2 powr of_int \<lfloor>log 2 x\<rfloor> \<le> x" and "x < 2 powr (of_int \<lfloor>log 2 x\<rfloor> + 1)"
proof -
  define e where "e = \<lfloor>log 2 x\<rfloor>"
  have "of_int e \<le> log 2 x" and "log 2 x < of_int e + 1"
    unfolding e_def by linarith+
  then have "2 powr of_int e \<le> x" and "x < 2 powr (of_int e + 1)"
    using assms by (simp_all add: le_log_iff log_less_iff)
  then show "2 powr of_int \<lfloor>log 2 x\<rfloor> \<le> x" and "x < 2 powr (of_int \<lfloor>log 2 x\<rfloor> + 1)"
    by (simp_all add: e_def)
qed

lemma binary64_within_binade:
  assumes "0 < x"
  shows "2 powr of_int \<lfloor>log 2 x\<rfloor> \<le> binary64 x"
    and "binary64 x \<le> 2 powr (of_int \<lfloor>log 2 x\<rfloor> + 1)"
proof -
  define e where "e = \<lfloor>log 2 x\<rfloor>"
  define u where "u = (2 :: real) powr (of_int e - 52)"
  have u: "0 < u"
    by (simp add: u_def)
  have lo: "u * 2 ^ 52 = 2 powr of_int e" and hi: "u * 2 ^ 53 = 2 powr (of_int e + 1)"
    by (simp_all add: u_def powr_diff powr_add)
  have b: "binary64 x = of_int (roundHalfEven (x / u)) * u"
    using assms by (simp add: binary64_def Let_def u_def e_def)
  from binade_of_positive [OF assms] have "u * 2 ^ 52 \<le> x" and "x < u * 2 ^ 53"
    unfolding lo hi by (simp_all add: e_def)
  then have a: "of_int (2 ^ 52) \<le> x / u" and c: "x / u \<le> of_int (2 ^ 53)"
    using u by (simp_all add: field_simps)
  have "(of_int (2 ^ 52) :: real) \<le> of_int (roundHalfEven (x / u))"
    and "(of_int (roundHalfEven (x / u)) :: real) \<le> of_int (2 ^ 53)"
    by (rule of_int_le_iff [THEN iffD2, OF roundHalfEven_ge [OF a]],
        rule of_int_le_iff [THEN iffD2, OF roundHalfEven_le [OF c]])
  then have "2 ^ 52 \<le> (of_int (roundHalfEven (x / u)) :: real)"
    and "(of_int (roundHalfEven (x / u)) :: real) \<le> 2 ^ 53"
    by simp_all
  then have "u * 2 ^ 52 \<le> of_int (roundHalfEven (x / u)) * u"
    and "of_int (roundHalfEven (x / u)) * u \<le> u * 2 ^ 53"
    using u by simp_all
  then have "2 powr of_int e \<le> binary64 x" and "binary64 x \<le> 2 powr (of_int e + 1)"
    unfolding lo hi b by simp_all
  then show "2 powr of_int \<lfloor>log 2 x\<rfloor> \<le> binary64 x"
    and "binary64 x \<le> 2 powr (of_int \<lfloor>log 2 x\<rfloor> + 1)"
    by (simp_all add: e_def)
qed

lemma binary64_mono_positive:
  assumes "0 < x" and "x \<le> y"
  shows "binary64 x \<le> binary64 y"
proof (cases "\<lfloor>log 2 x\<rfloor> = \<lfloor>log 2 y\<rfloor>")
  case True
  define u where "u = (2 :: real) powr (of_int \<lfloor>log 2 x\<rfloor> - 52)"
  have u: "0 < u"
    by (simp add: u_def)
  have "binary64 x = of_int (roundHalfEven (x / u)) * u"
    and "binary64 y = of_int (roundHalfEven (y / u)) * u"
    using assms True by (simp_all add: binary64_def Let_def u_def)
  moreover have "roundHalfEven (x / u) \<le> roundHalfEven (y / u)"
    using assms u by (intro roundHalfEven_mono divide_right_mono) simp_all
  ultimately show ?thesis
    using u by simp
next
  case False
  have y: "0 < y"
    using assms by simp
  have "log 2 x \<le> log 2 y"
    using assms by simp
  then have "\<lfloor>log 2 x\<rfloor> \<le> \<lfloor>log 2 y\<rfloor>"
    by (rule floor_mono)
  with False have "\<lfloor>log 2 x\<rfloor> + 1 \<le> \<lfloor>log 2 y\<rfloor>"
    by simp
  then have "(of_int \<lfloor>log 2 x\<rfloor> :: real) + 1 \<le> of_int \<lfloor>log 2 y\<rfloor>"
    by linarith
  then have "(2 :: real) powr (of_int \<lfloor>log 2 x\<rfloor> + 1) \<le> 2 powr of_int \<lfloor>log 2 y\<rfloor>"
    by simp
  with binary64_within_binade(2) [OF assms(1)] binary64_within_binade(1) [OF y]
  show ?thesis
    by linarith
qed

lemma binary64_nonneg:
  assumes "0 \<le> x"
  shows "0 \<le> binary64 x"
proof (cases "x = 0")
  case True
  then show ?thesis
    by (simp add: binary64_def)
next
  case False
  with assms have "0 < x"
    by simp
  from binary64_within_binade(1) [OF this] show ?thesis
    using powr_ge_zero [of 2 "of_int \<lfloor>log 2 x\<rfloor>"] by linarith
qed

lemma binary64_mono:
  assumes "x \<le> y"
  shows "binary64 x \<le> binary64 y"
proof -
  consider "0 < x" | "x \<le> 0" "0 \<le> y" | "y < 0"
    by linarith
  then show ?thesis
  proof cases
    case 1
    then show ?thesis
      using assms by (rule binary64_mono_positive)
  next
    case 2
    have "binary64 x \<le> 0"
      using binary64_nonneg [of "- x"] 2(1) by (simp add: binary64_minus)
    with binary64_nonneg [OF 2(2)] show ?thesis
      by linarith
  next
    case 3
    then have "binary64 (- y) \<le> binary64 (- x)"
      using assms by (intro binary64_mono_positive) simp_all
    then show ?thesis
      by (simp add: binary64_minus)
  qed
qed

lemma roundHalfEven_error: "\<bar>of_int (roundHalfEven y) - y\<bar> \<le> 1 / 2"
proof -
  have "of_int \<lfloor>y\<rfloor> \<le> y" and "y < of_int \<lfloor>y\<rfloor> + 1"
    by linarith+
  then show ?thesis
    by (auto simp: roundHalfEven_def Let_def)
qed

lemma binary64_error: "\<bar>binary64 x - x\<bar> \<le> \<bar>x\<bar> / 2 ^ 53"
proof (cases "x = 0")
  case True
  then show ?thesis by (simp add: binary64_def)
next
  case False
  define e where "e = \<lfloor>log 2 \<bar>x\<bar>\<rfloor>"
  define u where "u = (2 :: real) powr (of_int e - 52)"
  have u: "0 < u"
    by (simp add: u_def)
  have b: "binary64 x = of_int (roundHalfEven (x / u)) * u"
    using False by (simp add: binary64_def Let_def u_def e_def)
  have "of_int e \<le> log 2 \<bar>x\<bar>"
    by (simp add: e_def)
  then have "2 powr of_int e \<le> \<bar>x\<bar>"
    using False by (simp add: le_log_iff)
  moreover have "2 powr of_int e = u * 2 ^ 52"
    by (simp add: u_def powr_diff)
  ultimately have ux: "u * 2 ^ 52 \<le> \<bar>x\<bar>"
    by simp
  have "binary64 x - x = (of_int (roundHalfEven (x / u)) - x / u) * u"
    using u by (simp add: b field_simps)
  then have "\<bar>binary64 x - x\<bar> = \<bar>of_int (roundHalfEven (x / u)) - x / u\<bar> * u"
    using u by (simp add: abs_mult)
  also have "\<dots> \<le> (1 / 2) * u"
    using u roundHalfEven_error [of "x / u"] by (intro mult_right_mono) simp_all
  also have "\<dots> \<le> \<bar>x\<bar> / 2 ^ 53"
    using ux by simp
  finally show ?thesis .
qed




lemma doubleLe_PlusInfinity [simp]: "doubleLe a PlusInfinity"
  by (cases a) simp_all

lemma doubleLe_refl [simp]: "doubleLe a a"
  by (cases a) simp_all



text \<open>Evaluating the rounding at a number whose binade is known.\<close>

lemma toDouble_below_two_power:
  assumes "2 ^ 52 / 2 ^ n \<le> \<bar>x\<bar>" and "\<bar>x\<bar> < 2 ^ 53 / 2 ^ n" and "n \<le> 1074"
  shows "toDouble x = Finite (of_int (roundHalfEven (x * 2 ^ n)) / 2 ^ n)"
proof -
  have "(2 :: real) ^ n \<le> 2 ^ 1074"
    using assms(3) by (intro power_increasing) simp_all
  then have "(2 :: real) ^ 52 / 2 ^ 1074 \<le> 2 ^ 52 / 2 ^ n"
    by (intro divide_left_mono) simp_all
  moreover have "(1 :: real) / 2 ^ 1022 = 2 ^ 52 / 2 ^ 1074"
    by simp
  ultimately have n: "\<not> \<bar>x\<bar> < 1 / 2 ^ 1022"
    using assms(1) by linarith
  have b: "binary64 x = of_int (roundHalfEven (x * 2 ^ n)) / 2 ^ n"
    using assms(1,2) by (rule binary64_below_two_power)
  from assms(2) have lo: "of_int (- (2 ^ 53)) \<le> x * 2 ^ n" and hi: "x * 2 ^ n \<le> of_int (2 ^ 53)"
    by (simp_all add: abs_less_iff field_simps)
  have "(of_int (- (2 ^ 53)) :: real) \<le> of_int (roundHalfEven (x * 2 ^ n))"
    by (rule of_int_le_iff [THEN iffD2, OF roundHalfEven_ge [OF lo]])
  moreover have "(of_int (roundHalfEven (x * 2 ^ n)) :: real) \<le> of_int (2 ^ 53)"
    by (rule of_int_le_iff [THEN iffD2, OF roundHalfEven_le [OF hi]])
  ultimately have r: "\<bar>of_int (roundHalfEven (x * 2 ^ n)) :: real\<bar> \<le> 2 ^ 53"
    by (simp add: abs_le_iff)
  have "\<bar>r / 2 ^ n\<bar> \<le> \<bar>r\<bar>" for r :: real
    using mult_left_mono [of 1 "2 ^ n" "\<bar>r\<bar>"] by (simp add: abs_divide field_simps)
  from this r have "\<bar>binary64 x\<bar> \<le> 2 ^ 53"
    unfolding b by (rule order_trans)
  then have "\<not> 2 ^ 1024 \<le> binary64 x" and "\<not> binary64 x \<le> - (2 ^ 1024)"
    by (simp_all add: abs_le_iff)
  with n show ?thesis
    by (simp add: toDouble_def roundDouble_def Let_def b)
qed

lemma toDouble_zero: "toDouble 0 = Finite 0"
  by (simp add: toDouble_def roundDouble_def roundHalfEven_def)

lemma toDouble_dyadic:
  assumes "2 ^ 52 \<le> \<bar>m\<bar>" and "\<bar>m\<bar> < 2 ^ 53" and "n \<le> 1074"
  shows "toDouble (of_int m / 2 ^ n) = Finite (of_int m / 2 ^ n)"
proof -
  have a: "(2 :: real) ^ 52 \<le> \<bar>of_int m\<bar>"
    using assms(1) of_int_le_iff [of "2 ^ 52" "\<bar>m\<bar>", where ?'a = real] by simp
  have b: "\<bar>of_int m :: real\<bar> < 2 ^ 53"
    using assms(2) of_int_less_iff [of "\<bar>m\<bar>" "2 ^ 53", where ?'a = real] by simp
  have "toDouble (of_int m / 2 ^ n)
          = Finite (of_int (roundHalfEven (of_int m / 2 ^ n * 2 ^ n)) / 2 ^ n)"
    using a b assms(3) by (intro toDouble_below_two_power) (simp_all add: divide_right_mono divide_strict_right_mono)
  then show ?thesis
    by (simp add: roundHalfEven_of_int)
qed

lemma toDouble_one: "toDouble 1 = Finite 1"
  using toDouble_dyadic [of "2 ^ 52" 52] by simp

lemma toDouble_half: "toDouble (1 / 2) = Finite (1 / 2)"
  using toDouble_dyadic [of "2 ^ 52" 53] by simp

lemma toDouble_three: "toDouble 3 = Finite 3"
  using toDouble_dyadic [of "3 * 2 ^ 51" 51] by simp

lemma toDouble_three_halves: "toDouble (3 / 2) = Finite (3 / 2)"
  using toDouble_dyadic [of "3 * 2 ^ 51" 52] by simp

lemma toDouble_five: "toDouble 5 = Finite 5"
  using toDouble_dyadic [of "5 * 2 ^ 50" 50] by simp

lemma toDouble_five_halves: "toDouble (5 / 2) = Finite (5 / 2)"
  using toDouble_dyadic [of "5 * 2 ^ 50" 51] by simp





lemma binary64_simple:
  "binary64 0 = 0" "binary64 1 = 1" "binary64 (1 / 2) = 1 / 2" "binary64 (1 / 4) = 1 / 4"
  using binary64_below_two_power [of 52 1] binary64_below_two_power [of 53 "1 / 2"]
    binary64_below_two_power [of 54 "1 / 4"]
  by (simp_all add: binary64_def roundHalfEven_def Let_def)

lemma toDouble_quarter: "toDouble (1 / 4) = Finite (1 / 4)"
  using toDouble_dyadic [of "2 ^ 52" 54] by simp

section \<open>The branches of \<open>buildTree\<close>\<close>

lemma buildTree_pure:
  assumes "calculateImpurity crit [ySub] = Num 0"
  shows "buildTree crit md k XSub ySub depth g = (Inr (Leaf (Num 0) (hd ySub)), g)"
  by (subst buildTree.simps) (simp add: assms)

lemma buildTree_depth_limit:
  assumes "calculateImpurity crit [ySub] \<noteq> Num 0" and "0 \<le> md" and "md \<le> int depth"
  shows "buildTree crit md k XSub ySub depth g =
           (case majorityLabel ySub of
              Inl e \<Rightarrow> (Inl e, g)
            | Inr prediction \<Rightarrow> (Inr (Leaf (calculateImpurity crit [ySub]) prediction), g))"
  by (subst buildTree.simps) (simp add: assms Let_def)

lemma buildTree_no_split:
  assumes "calculateImpurity crit [ySub] \<noteq> Num 0" and "md < 0 \<or> int depth < md"
    and "findSplit crit k XSub ySub (calculateImpurity crit [ySub]) g = (None, g1)"
  shows "buildTree crit md k XSub ySub depth g = (Inl TypeError, g1)"
  using assms by (subst buildTree.simps) (auto simp: Let_def)

lemma buildTree_split:
  assumes "calculateImpurity crit [ySub] \<noteq> Num 0" and "md < 0 \<or> int depth < md"
    and "findSplit crit k XSub ySub (calculateImpurity crit [ySub]) g = (Some s, g1)"
    and "buildTree crit md k (features (groups s) ! 0) (labels (groups s) ! 0) (Suc depth) g1
           = (Inr l, g2)"
    and "buildTree crit md k (features (groups s) ! 1) (labels (groups s) ! 1) (Suc depth) g2
           = (Inr r, g3)"
  shows "buildTree crit md k XSub ySub depth g =
           (Inr (Node (calculateImpurity crit [ySub]) (feature s) (featureValue s) l r), g3)"
  using assms by (subst buildTree.simps) (auto simp: Let_def)

text \<open>Without samples every path ends in the \<open>TypeError\<close>.\<close>

lemma sampleWithoutReplacement_nothing: "sampleWithoutReplacement [] k g = ([], g)"
  by (cases k) simp_all

lemma findSplit_no_samples: "findSplit crit k [] ySub baseImpurity g = (None, g)"
  by (simp add: findSplit_def getShape_def sample_def sampleWithoutReplacement_nothing)

lemma buildTree_no_samples: "buildTree crit md k [] [] depth g = (Inl TypeError, g)"
proof -
  have i: "calculateImpurity crit [[]] \<noteq> Num 0"
    by (cases crit) (simp_all add: calculateImpurity_def calculateWeightedImpurity_def)
  show ?thesis
  proof (cases "0 \<le> md \<and> md \<le> int depth")
    case True
    then show ?thesis
      using buildTree_depth_limit [OF i, of md depth k "[]" g]
      by (simp add: majorityLabel_def valueCounts_def)
  next
    case False
    then have "md < 0 \<or> int depth < md"
      by linarith
    with i show ?thesis
      by (rule buildTree_no_split) (rule findSplit_no_samples)
  qed
qed

lemma tree_DecisionTree_new: "tree (DecisionTree_new crit nf md) = None"
  by (simp add: DecisionTree_new_def)

section \<open>A node without a valid split\<close>

lemma gini_two_labels: "gini [0, 1 :: int] = 1 / 2"
  by (simp add: gini_def)

lemma impurity_two_labels: "calculateImpurity Gini [[0, 1 :: int]] = Num (1 / 2)"
  by (simp add: calculateImpurity_def calculateWeightedImpurity_def gini_two_labels)

lemma findSplit_constant_feature:
  "findSplit Gini (Suc 0) [[1], [1]] [0, 1 :: int] (Num (1 / 2)) g = (None, tl g)"
  by (simp add: findSplit_def getShape_def sample_def considerFeature_def
      transpose_matrix_def splitValues_def scale_def sum_arrays_def)

lemma resolve_default_one_feature: "resolveNumFeaturesInt (Fraction 1) (Suc 0) = 1"
  by (simp add: resolveNumFeaturesInt_def timesDouble_def toDouble_one)

text \<open>
  C1. A node whose labels differ (impurity \<open>1/2\<close>), with no depth limit, whose only feature
  has one distinct value: \<open>findSplit\<close> finds no split, and \<open>buildTree\<close> does not return a
  majority-label leaf. It throws a \<open>TypeError\<close>, and so does \<open>train\<close> with the default
  options on these two samples; no tree is stored.
\<close>

theorem buildTree_without_split_throws:
  "calculateImpurity Gini [[0, 1 :: int]] = Num (1 / 2)
   \<and> findSplit Gini 1 [[1], [1]] [0, 1 :: int] (Num (1 / 2)) g = (None, tl g)
   \<and> buildTree Gini (- 1) 1 [[1], [1]] [0, 1 :: int] 0 g = (Inl TypeError, tl g)
   \<and> fst (DecisionTree_train (DecisionTree_new None None None) [[1], [1]] [0, 1 :: int] g)
       = Some TypeError
   \<and> tree (fst (snd (DecisionTree_train (DecisionTree_new None None None)
                        [[1], [1]] [0, 1 :: int] g))) = None"
proof -
  have i: "calculateImpurity Gini [[0, 1 :: int]] \<noteq> Num 0"
    by (simp add: impurity_two_labels)
  have f: "findSplit Gini (Suc 0) [[1], [1]] [0, 1 :: int]
             (calculateImpurity Gini [[0, 1 :: int]]) g = (None, tl g)"
    by (simp add: impurity_two_labels findSplit_constant_feature)
  have b: "buildTree Gini (- 1) (Suc 0) [[1], [1]] [0, 1 :: int] 0 g = (Inl TypeError, tl g)"
    by (rule buildTree_no_split [OF i _ f]) simp
  have t: "DecisionTree_train (DecisionTree_new None None None) [[1], [1]] [0, 1 :: int] g
             = (Some TypeError,
                (DecisionTree_new None None None) \<lparr> numFeaturesInt := Some (Suc 0) \<rparr>, tl g)"
    by (simp add: DecisionTree_train_def DecisionTree_new_def getShape_def
        resolve_default_one_feature b)
  show ?thesis
    using b by (simp add: impurity_two_labels findSplit_constant_feature t tree_DecisionTree_new)
qed

section \<open>Four samples on a line\<close>

text \<open>
  The samples \<open>[[0],[1],[2],[3]]\<close> with labels \<open>[0,0,1,1]\<close>, step by step: the candidate
  split values, the three partitions, their impurities, and the three rounds of the
  loop of \<open>findSplit\<close>.
\<close>

lemma line_splitValues: "splitValues [0, 1, 2, 3] = [Finite (1 / 2), Finite (3 / 2), Finite (5 / 2)]"
  by (simp add: splitValues_def scale_def sum_arrays_def addDouble_def timesDouble_def
      toDouble_one toDouble_three toDouble_five toDouble_half toDouble_three_halves
      toDouble_five_halves)

lemma line_column: "transpose_matrix [[0], [1], [2], [3 :: real]] ! 0 = [0, 1, 2, 3]"
  by (simp add: transpose_matrix_def getShape_def)

lemma line_split_low:
  "splitSamples [[0], [1], [2], [3]] [0, 0, 1, 1 :: int] 0 (Finite (1 / 2)) =
     \<lparr> indices = [[0], [1, 2, 3]], features = [[[0]], [[1], [2], [3]]],
       labels = [[0], [0, 1, 1]] \<rparr>"
  by (simp add: splitSamples_def featureBelow_def belowDouble_def upt_rec)

lemma line_split_mid:
  "splitSamples [[0], [1], [2], [3]] [0, 0, 1, 1 :: int] 0 (Finite (3 / 2)) =
     \<lparr> indices = [[0, 1], [2, 3]], features = [[[0], [1]], [[2], [3]]],
       labels = [[0, 0], [1, 1]] \<rparr>"
  by (simp add: splitSamples_def featureBelow_def belowDouble_def upt_rec)

lemma line_split_high:
  "splitSamples [[0], [1], [2], [3]] [0, 0, 1, 1 :: int] 0 (Finite (5 / 2)) =
     \<lparr> indices = [[0, 1, 2], [3]], features = [[[0], [1], [2]], [[3]]],
       labels = [[0, 0, 1], [1]] \<rparr>"
  by (simp add: splitSamples_def featureBelow_def belowDouble_def upt_rec)

lemma line_impurity_root: "calculateImpurity Gini [[0, 0, 1, 1 :: int]] = Num (1 / 2)"
  by (simp add: calculateImpurity_def calculateWeightedImpurity_def gini_def)

lemma line_impurity_low: "calculateImpurity Gini [[0], [0, 1, 1 :: int]] = Num (1 / 3)"
  by (simp add: calculateImpurity_def calculateWeightedImpurity_def gini_def)

lemma line_impurity_mid: "calculateImpurity Gini [[0, 0], [1, 1 :: int]] = Num 0"
  by (simp add: calculateImpurity_def calculateWeightedImpurity_def gini_def)

lemma line_impurity_high: "calculateImpurity Gini [[0, 0, 1], [1 :: int]] = Num (1 / 3)"
  by (simp add: calculateImpurity_def calculateWeightedImpurity_def gini_def)

lemma line_impurity_left: "calculateImpurity Gini [[0, 0 :: int]] = Num 0"
  by (simp add: calculateImpurity_def calculateWeightedImpurity_def gini_def)

lemma line_impurity_right: "calculateImpurity Gini [[1, 1 :: int]] = Num 0"
  by (simp add: calculateImpurity_def calculateWeightedImpurity_def gini_def)

lemma line_consider_low:
  "considerSplit Gini [[0], [1], [2], [3]] [0, 0, 1, 1 :: int] (Num (1 / 2)) 0
     (None, None) (Finite (1 / 2)) =
   (Some (1 / 6),
    Some \<lparr> feature = 0, featureValue = Finite (1 / 2),
           groups = \<lparr> indices = [[0], [1, 2, 3]], features = [[[0]], [[1], [2], [3]]],
                      labels = [[0], [0, 1, 1]] \<rparr> \<rparr>)"
  by (simp add: considerSplit_def line_split_low line_impurity_low gainOf_def toNumber_def
      gainExceeds_def)

lemma line_consider_mid:
  "considerSplit Gini [[0], [1], [2], [3]] [0, 0, 1, 1 :: int] (Num (1 / 2)) 0
     (Some (1 / 6), b) (Finite (3 / 2)) =
   (Some (1 / 2),
    Some \<lparr> feature = 0, featureValue = Finite (3 / 2),
           groups = \<lparr> indices = [[0, 1], [2, 3]], features = [[[0], [1]], [[2], [3]]],
                      labels = [[0, 0], [1, 1]] \<rparr> \<rparr>)"
  by (simp add: considerSplit_def line_split_mid line_impurity_mid gainOf_def toNumber_def
      gainExceeds_def)

lemma line_consider_high:
  "considerSplit Gini [[0], [1], [2], [3]] [0, 0, 1, 1 :: int] (Num (1 / 2)) 0
     (Some (1 / 2), b) (Finite (5 / 2)) = (Some (1 / 2), b)"
  by (simp add: considerSplit_def line_split_high line_impurity_high gainOf_def toNumber_def
      gainExceeds_def)

lemma line_findSplit:
  "findSplit Gini (Suc 0) [[0], [1], [2], [3]] [0, 0, 1, 1 :: int] (Num (1 / 2)) g =
   (Some \<lparr> feature = 0, featureValue = Finite (3 / 2),
           groups = \<lparr> indices = [[0, 1], [2, 3]], features = [[[0], [1]], [[2], [3]]],
                      labels = [[0, 0], [1, 1]] \<rparr> \<rparr>, tl g)"
  by (simp add: findSplit_def getShape_def sample_def considerFeature_def line_column
      line_splitValues line_consider_low line_consider_mid line_consider_high)

lemma line_buildTree:
  "buildTree Gini (- 1) (Suc 0) [[0], [1], [2], [3]] [0, 0, 1, 1 :: int] 0 g =
   (Inr (Node (Num (1 / 2)) 0 (Finite (3 / 2)) (Leaf (Num 0) 0) (Leaf (Num 0) 1)), tl g)"
proof -
  let ?s = "\<lparr> feature = 0, featureValue = Finite (3 / 2),
              groups = \<lparr> indices = [[0, 1], [2, 3]], features = [[[0], [1]], [[2], [3]]],
                         labels = [[0, 0], [1, 1 :: int]] \<rparr> \<rparr>"
  have i: "calculateImpurity Gini [[0, 0, 1, 1 :: int]] \<noteq> Num 0"
    by (simp add: line_impurity_root)
  have f: "findSplit Gini (Suc 0) [[0], [1], [2], [3]] [0, 0, 1, 1 :: int]
             (calculateImpurity Gini [[0, 0, 1, 1 :: int]]) g = (Some ?s, tl g)"
    by (simp add: line_impurity_root line_findSplit)
  have l: "buildTree Gini (- 1) (Suc 0) (features (groups ?s) ! 0) (labels (groups ?s) ! 0)
             (Suc 0) (tl g) = (Inr (Leaf (Num 0) 0), tl g)"
    using buildTree_pure [OF line_impurity_left, of "- 1" "Suc 0" "[[0], [1]]" "Suc 0" "tl g"]
    by simp
  have r: "buildTree Gini (- 1) (Suc 0) (features (groups ?s) ! 1) (labels (groups ?s) ! 1)
             (Suc 0) (tl g) = (Inr (Leaf (Num 0) 1), tl g)"
    using buildTree_pure [OF line_impurity_right, of "- 1" "Suc 0" "[[2], [3]]" "Suc 0" "tl g"]
    by simp
  have "buildTree Gini (- 1) (Suc 0) [[0], [1], [2], [3]] [0, 0, 1, 1 :: int] 0 g =
          (Inr (Node (calculateImpurity Gini [[0, 0, 1, 1 :: int]]) (feature ?s)
                  (featureValue ?s) (Leaf (Num 0) 0) (Leaf (Num 0) 1)), tl g)"
    by (rule buildTree_split [OF i _ f l r]) simp
  then show ?thesis
    by (simp add: line_impurity_root)
qed

lemma line_train:
  "DecisionTree_train (DecisionTree_new (Some Gini) None (Some (- 1)))
     [[0], [1], [2], [3]] [0, 0, 1, 1 :: int] g =
   (None,
    (DecisionTree_new (Some Gini) None (Some (- 1)))
      \<lparr> numFeaturesInt := Some (Suc 0),
        tree := Some (Node (Num (1 / 2)) 0 (Finite (3 / 2)) (Leaf (Num 0) 0) (Leaf (Num 0) 1)) \<rparr>,
    tl g)"
  by (simp add: DecisionTree_train_def DecisionTree_new_def getShape_def
      resolve_default_one_feature line_buildTree)

text \<open>
  C3. Training with criterion \<open>'gini'\<close> and \<open>maxDepth\<close> \<open>-1\<close> on \<open>X = [[0],[1],[2],[3]]\<close>,
  \<open>y = [0,0,1,1]\<close> succeeds, whatever the random source; the root is an internal node on
  feature 0 with threshold \<open>1.5\<close>, its children are the pure leaves predicting 0 (left)
  and 1 (right), and \<open>predict([[0.5],[2.5]])\<close> on the trained tree is \<open>[0, 1]\<close>.
\<close>

theorem line_scenario:
  "fst (DecisionTree_train (DecisionTree_new (Some Gini) None (Some (- 1)))
          [[0], [1], [2], [3]] [0, 0, 1, 1 :: int] g) = None
   \<and> tree (fst (snd (DecisionTree_train (DecisionTree_new (Some Gini) None (Some (- 1)))
                       [[0], [1], [2], [3]] [0, 0, 1, 1 :: int] g)))
       = Some (Node (Num (1 / 2)) 0 (Finite (3 / 2)) (Leaf (Num 0) 0) (Leaf (Num 0) 1))
   \<and> DecisionTree_predict
         (fst (snd (DecisionTree_train (DecisionTree_new (Some Gini) None (Some (- 1)))
                      [[0], [1], [2], [3]] [0, 0, 1, 1 :: int] g)))
         [[1 / 2], [5 / 2]] = Inr [0, 1]"
  by (simp add: line_train DecisionTree_predict_def DecisionTree_predictSample_def
      featureBelow_def belowDouble_def)

section \<open>The groups of an accepted split\<close>

text \<open>
  C4. Whenever \<open>findSplit\<close> returns a split, for any samples, labels, criterion, base
  impurity, subsample count and random source, both of its groups hold at least one
  sample: the feature rows, the labels and the indices of the left group and of the
  right group each have length at least 1.
\<close>

theorem findSplit_groups_nonempty:
  assumes "findSplit crit k XSub ySub baseImpurity g = (Some s, g')"
  shows "1 \<le> length (features (groups s) ! 0) \<and> 1 \<le> length (features (groups s) ! 1)
         \<and> 1 \<le> length (labels (groups s) ! 0) \<and> 1 \<le> length (labels (groups s) ! 1)
         \<and> 1 \<le> length (indices (groups s) ! 0) \<and> 1 \<le> length (indices (groups s) ! 1)"
proof -
  note s = findSplit_Some [OF assms]
  have "length (labels (groups s) ! 0) = length (features (groups s) ! 0)"
    and "length (labels (groups s) ! 1) = length (features (groups s) ! 1)"
    and "length (indices (groups s) ! 0) = length (features (groups s) ! 0)"
    and "length (indices (groups s) ! 1) = length (features (groups s) ! 1)"
    by (simp_all add: s(1) splitSamples_def Let_def)
  with s(2,3) show ?thesis
    by (cases "features (groups s) ! 0"; cases "features (groups s) ! 1"; simp)
qed

theorem findSplit_groups_nonempty_witness:
  "findSplit Gini 1 [[0], [1], [2], [3]] [0, 0, 1, 1 :: int] (Num (1 / 2)) [] =
     (Some \<lparr> feature = 0, featureValue = Finite (3 / 2),
             groups = \<lparr> indices = [[0, 1], [2, 3]], features = [[[0], [1]], [[2], [3]]],
                        labels = [[0, 0], [1, 1]] \<rparr> \<rparr>, [])
   \<and> 1 \<le> length ([[[0], [1]], [[2], [3 :: real]]] ! 0)
   \<and> 1 \<le> length ([[[0], [1]], [[2], [3 :: real]]] ! 1)"
proof -
  have f: "findSplit Gini (Suc 0) [[0], [1], [2], [3]] [0, 0, 1, 1 :: int] (Num (1 / 2)) [] =
     (Some \<lparr> feature = 0, featureValue = Finite (3 / 2),
             groups = \<lparr> indices = [[0, 1], [2, 3]], features = [[[0], [1]], [[2], [3]]],
                        labels = [[0, 0], [1, 1]] \<rparr> \<rparr>, [])"
    using line_findSplit [of "[]"] by simp
  from findSplit_groups_nonempty [OF f] f show ?thesis
    by simp
qed

section \<open>Candidate thresholds\<close>

lemma set_unique: "set (unique xs) = set xs"
  by (induction xs rule: unique.induct) auto

lemma distinct_unique: "distinct (unique xs)"
  by (induction xs rule: unique.induct) (auto simp: set_unique)























section \<open>Impurity of pure and of balanced groups\<close>

lemma foldl_plus: "foldl (\<lambda>r x. r + f x) a xs = a + sum_list (map f xs)" for a :: real
  by (induction xs arbitrary: a) simp_all

lemma foldl_minus: "foldl (\<lambda>r x. r - f x) a xs = a - sum_list (map f xs)" for a :: real
  by (induction xs arbitrary: a) simp_all

text \<open>The empirical frequency \<open>frac\<close> of a label in a group, as both callbacks compute it.\<close>

definition frequency :: "'l list \<Rightarrow> 'l \<Rightarrow> real" where
  "frequency ys c = real (length (filter (\<lambda>x. x = c) ys)) / real (length ys)"

lemma gini_sum: "gini ys = (\<Sum>c\<in>set ys. frequency ys c * (1 - frequency ys c))"
  using sum_list_distinct_conv_sum_set
    [OF distinct_unique, of "\<lambda>c. frequency ys c * (1 - frequency ys c)" ys]
  by (simp add: gini_def Let_def foldl_plus set_unique frequency_def)

lemma entropy_sum: "entropy ys = - (\<Sum>c\<in>set ys. frequency ys c * ln (frequency ys c))"
  using sum_list_distinct_conv_sum_set
    [OF distinct_unique, of "\<lambda>c. frequency ys c * ln (frequency ys c)" ys]
  by (simp add: entropy_def Let_def foldl_minus set_unique frequency_def)

lemma frequency_single:
  assumes "set ys = {c}"
  shows "frequency ys c = 1"
proof -
  have "filter (\<lambda>x. x = c) ys = ys"
    using assms by (auto intro: filter_True)
  moreover have "ys \<noteq> []"
    using assms by auto
  ultimately show ?thesis
    by (simp add: frequency_def)
qed

lemma frequency_balanced:
  assumes "set ys = {a, b}" and "a \<noteq> b"
    and "length (filter (\<lambda>x. x = a) ys) = length (filter (\<lambda>x. x = b) ys)"
  shows "frequency ys a = 1 / 2" and "frequency ys b = 1 / 2"
proof -
  have "filter (\<lambda>x. \<not> x = a) ys = filter (\<lambda>x. x = b) ys"
    using assms(1,2) by (intro filter_cong) auto
  with sum_length_filter_compl [of "\<lambda>x. x = a" ys]
  have n: "length ys = 2 * length (filter (\<lambda>x. x = a) ys)"
    using assms(3) by simp
  have "ys \<noteq> []"
    using assms(1) by auto
  then have "0 < length (filter (\<lambda>x. x = a) ys)"
    using n by (cases ys) auto
  then show "frequency ys a = 1 / 2" and "frequency ys b = 1 / 2"
    using n assms(3) by (simp_all add: frequency_def)
qed

text \<open>
  C6. For a non-empty label group of a single class \<open>c\<close>, \<open>gini\<close> and \<open>entropy\<close> both
  return 0. For a label group whose classes are exactly \<open>a\<close> and \<open>b\<close> (different), each
  occurring equally often, \<open>gini\<close> returns \<open>0.5\<close> and \<open>entropy\<close> returns \<open>ln 2\<close>.
\<close>

theorem impurity_pure_and_balanced:
  "(set ys = {c} \<longrightarrow> gini ys = 0 \<and> entropy ys = 0)
   \<and> (set ys = {a, b} \<and> a \<noteq> b
        \<and> length (filter (\<lambda>x. x = a) ys) = length (filter (\<lambda>x. x = b) ys)
      \<longrightarrow> gini ys = 1 / 2 \<and> entropy ys = ln 2)"
proof (intro conjI impI)
  assume "set ys = {c}"
  then show "gini ys = 0" and "entropy ys = 0"
    by (simp_all add: gini_sum entropy_sum frequency_single)
next
  assume h: "set ys = {a, b} \<and> a \<noteq> b
        \<and> length (filter (\<lambda>x. x = a) ys) = length (filter (\<lambda>x. x = b) ys)"
  then have f: "frequency ys a = 1 / 2" "frequency ys b = 1 / 2"
    using frequency_balanced [of ys a b] by simp_all
  from h show "gini ys = 1 / 2"
    by (simp add: gini_sum f)
  from h show "entropy ys = ln 2"
    by (simp add: entropy_sum f ln_div)
qed

theorem impurity_pure_and_balanced_witness:
  "set [7, 7, 7 :: int] = {7} \<and> gini [7, 7, 7 :: int] = 0 \<and> entropy [7, 7, 7 :: int] = 0
   \<and> set [0, 1, 1, 0 :: int] = {0, 1}
   \<and> length (filter (\<lambda>x. x = 0) [0, 1, 1, 0 :: int])
       = length (filter (\<lambda>x. x = 1) [0, 1, 1, 0 :: int])
   \<and> gini [0, 1, 1, 0 :: int] = 1 / 2 \<and> entropy [0, 1, 1, 0 :: int] = ln 2"
proof -
  have p: "set [7, 7, 7 :: int] = {7}"
    by simp
  have q: "set [0, 1, 1, 0 :: int] = {0, 1} \<and> (0 :: int) \<noteq> 1
         \<and> length (filter (\<lambda>x. x = 0) [0, 1, 1, 0 :: int])
             = length (filter (\<lambda>x. x = 1) [0, 1, 1, 0 :: int])"
    by auto
  note t1 = impurity_pure_and_balanced [of "[7, 7, 7 :: int]" 7 0 1, THEN conjunct1, THEN mp, OF p]
  note t2 = impurity_pure_and_balanced [of "[0, 1, 1, 0 :: int]" 7 0 1, THEN conjunct2, THEN mp, OF q]
  from p q t1 t2 show ?thesis
    by blast
qed

section \<open>The feature-subsample count\<close>

text \<open>
  What \<open>train\<close> stores, and the three branches one by one. The numeric branch is
  clamped from below by \<open>Math.max(1, \<dots>)\<close>; the square root of a count of at least 1 is
  at least 1; the logarithm is at least 1 from two features on.
\<close>

lemma train_sets_numFeaturesInt:
  "length X = length y \<Longrightarrow>
   numFeaturesInt (fst (snd (DecisionTree_train this X y g)))
     = Some (nat (resolveNumFeaturesInt (numFeatures this) (getShape X ! 1)))"
  by (simp add: DecisionTree_train_def Let_def split: prod.splits sum.splits)

lemma fraction_count: "1 \<le> resolveNumFeaturesInt (Fraction f) n"
  by (cases "timesDouble (Finite f) (real n)") (simp_all add: resolveNumFeaturesInt_def)

lemma fraction_count_capped: "1 \<le> n \<Longrightarrow> resolveNumFeaturesInt (Fraction f) n \<le> int n"
  by (cases "timesDouble (Finite f) (real n)") (simp_all add: resolveNumFeaturesInt_def)

lemma sqrt_count:
  assumes "1 \<le> n"
  shows "1 \<le> resolveNumFeaturesInt Sqrt n"
proof -
  from assms have "1 \<le> sqrt (real n)"
    by simp
  then have "binary64 1 \<le> binary64 (sqrt (real n))"
    by (rule binary64_mono)
  then show ?thesis
    by (simp add: resolveNumFeaturesInt_def binary64_simple le_floor_iff)
qed

lemma log2_count:
  assumes "2 \<le> n"
  shows "1 \<le> resolveNumFeaturesInt Log2 n"
proof -
  from assms have "log 2 2 \<le> log 2 (real n)"
    by (subst log_le_cancel_iff) simp_all
  then have "1 \<le> log 2 (real n)"
    by simp
  then have "binary64 1 \<le> binary64 (log 2 (real n))"
    by (rule binary64_mono)
  then show ?thesis
    by (simp add: resolveNumFeaturesInt_def binary64_simple le_floor_iff)
qed

lemma log2_one_feature: "resolveNumFeaturesInt Log2 (Suc 0) = 0"
  by (simp add: resolveNumFeaturesInt_def binary64_simple)

lemma quarter_one_feature: "resolveNumFeaturesInt (Fraction (1 / 4)) (Suc 0) = 1"
  by (simp add: resolveNumFeaturesInt_def timesDouble_def toDouble_quarter)

text \<open>
  The product of the numeric branch is rounded before its floor is taken. The literal
  \<open>0.6\<close> is the double \<open>5404319552844595 / 2^53\<close>, just below \<open>6/10\<close>; its product with 5
  rounds to 3, where the exact product floors to 2. The literal \<open>0.57\<close> is the double
  \<open>5134103575202365 / 2^53\<close>, and its product with 100 rounds to a double below 57.
\<close>

lemma six_tenths: "toDouble (6 / 10) = Finite (5404319552844595 / 2 ^ 53)"
  using toDouble_below_two_power [of 53 "6 / 10"]
  by (simp add: roundHalfEven_def Let_def)

lemma six_tenths_of_five:
  "resolveNumFeaturesInt (Fraction (5404319552844595 / 2 ^ 53)) 5 = 3"
  "\<lfloor>5404319552844595 / 2 ^ 53 * real 5\<rfloor> = 2"
  using toDouble_below_two_power [of 51 "5404319552844595 / 2 ^ 53 * 5"]
  by (simp_all add: resolveNumFeaturesInt_def timesDouble_def roundHalfEven_def Let_def)

lemma fifty_seven_hundredths: "toDouble (57 / 100) = Finite (5134103575202365 / 2 ^ 53)"
  using toDouble_below_two_power [of 53 "57 / 100"]
  by (simp add: roundHalfEven_def Let_def)

lemma fifty_seven_hundredths_of_hundred:
  "resolveNumFeaturesInt (Fraction (5134103575202365 / 2 ^ 53)) 100 = 56"
  using toDouble_below_two_power [of 47 "5134103575202365 / 2 ^ 53 * 100"]
  by (simp add: resolveNumFeaturesInt_def timesDouble_def roundHalfEven_def Let_def)

lemma findSplit_no_feature: "findSplit crit 0 XSub ySub baseImpurity g = (None, g)"
  by (simp add: findSplit_def sample_def)

text \<open>
  C2. With the option \<open>'log2'\<close> and one feature, \<open>train\<close> on the samples
  \<open>[[0],[1],[2],[3]]\<close> with labels \<open>[0,0,1,1]\<close> stores the count
  \<open>Math.floor(Math.log2(1)) = 0\<close>: \<open>findSplit\<close> then draws no feature and finds no split,
  and \<open>train\<close> throws a \<open>TypeError\<close> with no tree stored. The numeric branch has the clamp
  that the \<open>'log2'\<close> branch lacks: with the fraction \<open>0.25\<close>, where
  \<open>Math.floor(0.25 * 1)\<close> is 0 as well, the count is 1 and \<open>train\<close> succeeds on the same
  samples.
\<close>

theorem train_log2_one_feature:
  "resolveNumFeaturesInt Log2 1 = 0
   \<and> numFeaturesInt (fst (snd (DecisionTree_train (DecisionTree_new None (Some Log2) None)
                                 [[0], [1], [2], [3]] [0, 0, 1, 1 :: int] g))) = Some 0
   \<and> findSplit Gini 0 [[0], [1], [2], [3]] [0, 0, 1, 1 :: int] (Num (1 / 2)) g = (None, g)
   \<and> fst (DecisionTree_train (DecisionTree_new None (Some Log2) None)
            [[0], [1], [2], [3]] [0, 0, 1, 1 :: int] g) = Some TypeError
   \<and> tree (fst (snd (DecisionTree_train (DecisionTree_new None (Some Log2) None)
                       [[0], [1], [2], [3]] [0, 0, 1, 1 :: int] g))) = None
   \<and> resolveNumFeaturesInt (Fraction (1 / 4)) 1 = 1
   \<and> numFeaturesInt (fst (snd (DecisionTree_train
                                 (DecisionTree_new None (Some (Fraction (1 / 4))) None)
                                 [[0], [1], [2], [3]] [0, 0, 1, 1 :: int] g))) = Some 1
   \<and> fst (DecisionTree_train (DecisionTree_new None (Some (Fraction (1 / 4))) None)
            [[0], [1], [2], [3]] [0, 0, 1, 1 :: int] g) = None"
proof -
  have i: "calculateImpurity Gini [[0, 0, 1, 1 :: int]] \<noteq> Num 0"
    by (simp add: line_impurity_root)
  have b: "buildTree Gini (- 1) 0 [[0], [1], [2], [3]] [0, 0, 1, 1 :: int] 0 g
             = (Inl TypeError, g)"
    by (rule buildTree_no_split [OF i _ findSplit_no_feature]) simp
  have t: "DecisionTree_train (DecisionTree_new None (Some Log2) None)
             [[0], [1], [2], [3]] [0, 0, 1, 1 :: int] g
             = (Some TypeError,
                (DecisionTree_new None (Some Log2) None) \<lparr> numFeaturesInt := Some 0 \<rparr>, g)"
    by (simp add: DecisionTree_train_def DecisionTree_new_def getShape_def
        log2_one_feature b)
  have u: "DecisionTree_train (DecisionTree_new None (Some (Fraction (1 / 4))) None)
             [[0], [1], [2], [3]] [0, 0, 1, 1 :: int] g
             = (None,
                (DecisionTree_new None (Some (Fraction (1 / 4))) None)
                  \<lparr> numFeaturesInt := Some (Suc 0),
                    tree := Some (Node (Num (1 / 2)) 0 (Finite (3 / 2))
                                    (Leaf (Num 0) 0) (Leaf (Num 0) 1)) \<rparr>,
                tl g)"
    by (simp add: DecisionTree_train_def DecisionTree_new_def getShape_def
        quarter_one_feature line_buildTree)
  show ?thesis
    by (simp add: t u log2_one_feature quarter_one_feature findSplit_no_feature
        tree_DecisionTree_new)
qed

section \<open>Training and predicting\<close>

lemma traverse_total: "traverse (\<lambda>x. Inr (f x)) xs = Inr (map f xs)"
  by (induction xs) simp_all

lemma DecisionTree_train_mismatch:
  "length X \<noteq> length y \<Longrightarrow> DecisionTree_train this X y g = (Some DimensionMismatch, this, g)"
  by (simp add: DecisionTree_train_def)

lemma RandomForest_train_mismatch:
  "length X \<noteq> length y \<Longrightarrow> RandomForest_train this X y g = (Some DimensionMismatch, this, g)"
  by (simp add: RandomForest_train_def)

lemma DecisionTree_train_success:
  assumes "DecisionTree_train this X y g = (None, trained, g')"
  shows "\<exists>rootNode. tree trained = Some rootNode"
  using assms
  by (auto simp: DecisionTree_train_def Let_def split: if_splits prod.splits sum.splits)

lemma DecisionTree_predict_trained:
  assumes "tree this = Some rootNode"
  shows "DecisionTree_predict this X = Inr (map (descend rootNode) X)"
    and "DecisionTree_predictSample this x = Inr (descend rootNode x)"
proof -
  have "DecisionTree_predictSample this = (\<lambda>x. Inr (descend rootNode x))"
    by (rule ext) (simp add: DecisionTree_predictSample_def assms)
  then show "DecisionTree_predict this X = Inr (map (descend rootNode) X)"
    by (simp add: DecisionTree_predict_def assms traverse_total)
  show "DecisionTree_predictSample this x = Inr (descend rootNode x)"
    by (simp add: DecisionTree_predictSample_def assms)
qed

lemma traverse_all_Inr:
  assumes "\<And>x. x \<in> set xs \<Longrightarrow> \<exists>v. f x = Inr v"
  shows "\<exists>vs. traverse f xs = Inr vs"
  using assms
proof (induction xs)
  case Nil
  show ?case by simp
next
  case (Cons x xs)
  from Cons.prems obtain v where "f x = Inr v"
    by auto
  moreover from Cons obtain vs where "traverse f xs = Inr vs"
    by auto
  ultimately show ?case
    by simp
qed

text \<open>Every tree in the list of a forest has a root.\<close>

definition allTrained :: "'l RandomForest \<Rightarrow> bool" where
  "allTrained this =
     (case trees this of None \<Rightarrow> False | Some ts \<Rightarrow> list_all (\<lambda>t. tree t \<noteq> None) ts)"

lemma trainTrees_step:
  assumes "selectSamples (bootstrap this) X y g = (treeX, treeY, g1)"
    and "DecisionTree_train (DecisionTree_new (Some (criterion this)) (Some (numFeatures this))
           (Some (maxDepth this))) treeX treeY g1 = (e, trained, g2)"
    and "trees this = Some ts"
  shows "trainTrees this X y (Suc n) g =
           (case e of
              Some err \<Rightarrow> (Some err, this, g2)
            | None \<Rightarrow> trainTrees (this \<lparr> trees := Some (ts @ [trained]) \<rparr>) X y n g2)"
  by (simp add: assms split: option.splits)

lemma trainTrees_allTrained:
  assumes "trainTrees this X y n g = (r, this', g')" and "allTrained this"
  shows "allTrained this'"
  using assms
proof (induction n arbitrary: this g)
  case 0
  then show ?case by simp
next
  case (Suc n)
  obtain treeX treeY g1 where s: "selectSamples (bootstrap this) X y g = (treeX, treeY, g1)"
    by (cases "selectSamples (bootstrap this) X y g") auto
  obtain e trained g2 where d:
    "DecisionTree_train (DecisionTree_new (Some (criterion this)) (Some (numFeatures this))
        (Some (maxDepth this))) treeX treeY g1 = (e, trained, g2)"
    using prod_cases3 by blast
  from Suc.prems(2) obtain ts where ts: "trees this = Some ts"
    and tr: "list_all (\<lambda>t. tree t \<noteq> None) ts"
    by (auto simp: allTrained_def split: option.splits)
  note u = trainTrees_step [OF s d ts, of n]
  show ?case
  proof (cases e)
    case None
    with u Suc.prems(1)
    have step: "trainTrees (this \<lparr> trees := Some (ts @ [trained]) \<rparr>) X y n g2 = (r, this', g')"
      by simp
    from d None have "DecisionTree_train (DecisionTree_new (Some (criterion this))
        (Some (numFeatures this)) (Some (maxDepth this))) treeX treeY g1 = (None, trained, g2)"
      by simp
    then obtain rootNode where "tree trained = Some rootNode"
      by (rule DecisionTree_train_success [THEN exE])
    with tr have "allTrained (this \<lparr> trees := Some (ts @ [trained]) \<rparr>)"
      by (simp add: allTrained_def)
    with step show ?thesis
      by (rule Suc.IH)
  next
    case (Some err)
    with u Suc.prems(1) have "this' = this"
      by simp
    with Suc.prems(2) show ?thesis
      by simp
  qed
qed

lemma RandomForest_train_allTrained:
  assumes "RandomForest_train this X y g = (None, this', g')"
  shows "allTrained this'"
proof -
  from assms have "trainTrees (this \<lparr> trees := Some [] \<rparr>) X y (nat (numTrees this)) g
                     = (None, this', g')"
    by (simp add: RandomForest_train_def split: if_splits)
  moreover have "allTrained (this \<lparr> trees := Some [] \<rparr>)"
    by (simp add: allTrained_def)
  ultimately show ?thesis
    by (rule trainTrees_allTrained)
qed

lemma RandomForest_predictSample_allTrained:
  assumes "allTrained this"
  shows "\<exists>v. RandomForest_predictSample this x = Inr v"
proof -
  from assms obtain ts where ts: "trees this = Some ts" "list_all (\<lambda>t. tree t \<noteq> None) ts"
    by (auto simp: allTrained_def split: option.splits)
  have "\<exists>v. DecisionTree_predictSample t x = Inr v" if "t \<in> set ts" for t
    using that ts(2) by (auto simp: list_all_iff DecisionTree_predictSample_def)
  then obtain ps where "traverse (\<lambda>t. DecisionTree_predictSample t x) ts = Inr ps"
    using traverse_all_Inr [of ts "\<lambda>t. DecisionTree_predictSample t x"] by auto
  then show ?thesis
    by (simp add: RandomForest_predictSample_def ts(1))
qed

lemma RandomForest_predict_allTrained:
  assumes "allTrained this"
  shows "\<exists>ps. RandomForest_predict this X = Inr ps"
proof -
  have "trees this \<noteq> None"
    using assms by (auto simp: allTrained_def split: option.splits)
  moreover have "\<exists>ps. traverse (RandomForest_predictSample this) X = Inr ps"
    by (rule traverse_all_Inr) (rule RandomForest_predictSample_allTrained [OF assms])
  ultimately show ?thesis
    by (simp add: RandomForest_predict_def)
qed

lemma DecisionTree_new_of_forest:
  "DecisionTree_new (Some (criterion (RandomForest_new crit nf md nt bs \<lparr> trees := ts \<rparr>)))
     (Some (numFeatures (RandomForest_new crit nf md nt bs \<lparr> trees := ts \<rparr>)))
     (Some (maxDepth (RandomForest_new crit nf md nt bs \<lparr> trees := ts \<rparr>)))
   = DecisionTree_new crit nf md"
  by (simp add: DecisionTree_new_def RandomForest_new_def)

lemma RandomForest_single_tree:
  assumes "DecisionTree_train (DecisionTree_new crit nf md) X y g = (None, dt, g')"
  shows "RandomForest_train (RandomForest_new crit nf md (Some 1) (Some False)) X y g =
           (None, (RandomForest_new crit nf md (Some 1) (Some False)) \<lparr> trees := Some [dt] \<rparr>, g')"
proof -
  let ?rf = "RandomForest_new crit nf md (Some 1) (Some False) :: 'a RandomForest"
  have len: "length X = length y"
    using assms by (auto simp: DecisionTree_train_def split: if_splits)
  have b: "bootstrap (?rf \<lparr> trees := Some [] \<rparr>) = False"
    and n: "nat (numTrees ?rf) = Suc 0"
    and t: "trees (?rf \<lparr> trees := Some [] \<rparr>) = Some []"
    by (simp_all add: RandomForest_new_def)
  have s: "selectSamples (bootstrap (?rf \<lparr> trees := Some [] \<rparr>)) X y g = (X, y, g)"
    by (simp add: b selectSamples_def)
  have d: "DecisionTree_train
             (DecisionTree_new (Some (criterion (?rf \<lparr> trees := Some [] \<rparr>)))
                (Some (numFeatures (?rf \<lparr> trees := Some [] \<rparr>)))
                (Some (maxDepth (?rf \<lparr> trees := Some [] \<rparr>)))) X y g = (None, dt, g')"
    by (simp only: DecisionTree_new_of_forest assms)
  have "trainTrees (?rf \<lparr> trees := Some [] \<rparr>) X y (Suc 0) g =
          trainTrees (?rf \<lparr> trees := Some [], trees := Some ([] @ [dt]) \<rparr>) X y 0 g'"
    by (simp only: trainTrees_step [OF s d t] option.case)
  then have "trainTrees (?rf \<lparr> trees := Some [] \<rparr>) X y (Suc 0) g =
          (None, ?rf \<lparr> trees := Some [dt] \<rparr>, g')"
    by simp
  then show ?thesis
    by (simp add: RandomForest_train_def len n)
qed

lemma single_vote:
  assumes "trees this = Some [dt]" and "tree dt = Some rootNode"
  shows "RandomForest_predictSample this x = Inr (Label (descend rootNode x))"
  by (simp add: RandomForest_predictSample_def assms DecisionTree_predictSample_def
      valueCounts_def)

text \<open>
  C7. When a decision tree with given criterion, \<open>numFeatures\<close> and \<open>maxDepth\<close> trains
  successfully on a dataset, a random forest with the same three options, \<open>numTrees = 1\<close>
  and \<open>bootstrap = false\<close> trains successfully on the same dataset from the same random
  source (and leaves the random source in the same state), and for every list of query
  samples the forest predicts, sample by sample, the labels the tree predicts.
\<close>

theorem forest_of_one_tree:
  assumes "DecisionTree_train (DecisionTree_new crit nf md) X y g = (None, dt, g')"
  shows "\<exists>rf ps. RandomForest_train (RandomForest_new crit nf md (Some 1) (Some False)) X y g
                    = (None, rf, g')
                 \<and> DecisionTree_predict dt Q = Inr ps
                 \<and> RandomForest_predict rf Q = Inr (map Label ps)"
proof -
  let ?rf = "(RandomForest_new crit nf md (Some 1) (Some False)) \<lparr> trees := Some [dt] \<rparr>"
  from assms obtain rootNode where r: "tree dt = Some rootNode"
    by (rule DecisionTree_train_success [THEN exE])
  have "RandomForest_predictSample ?rf = (\<lambda>x. Inr (Label (descend rootNode x)))"
    by (rule ext) (simp add: single_vote r)
  then have "RandomForest_predict ?rf Q = Inr (map Label (map (descend rootNode) Q))"
    by (simp add: RandomForest_predict_def traverse_total)
  with RandomForest_single_tree [OF assms] DecisionTree_predict_trained(1) [OF r, of Q]
  show ?thesis
    by blast
qed

theorem forest_of_one_tree_witness:
  "DecisionTree_train (DecisionTree_new (Some Gini) None (Some (- 1)))
     [[0], [1], [2], [3]] [0, 0, 1, 1 :: int] [] =
   (None,
    (DecisionTree_new (Some Gini) None (Some (- 1)))
      \<lparr> numFeaturesInt := Some (Suc 0),
        tree := Some (Node (Num (1 / 2)) 0 (Finite (3 / 2)) (Leaf (Num 0) 0) (Leaf (Num 0) 1)) \<rparr>, [])
   \<and> (\<exists>rf. RandomForest_train (RandomForest_new (Some Gini) None (Some (- 1)) (Some 1)
                                  (Some False))
               [[0], [1], [2], [3]] [0, 0, 1, 1 :: int] [] = (None, rf, [])
            \<and> RandomForest_predict rf [[1 / 2], [5 / 2]] = Inr [Label 0, Label 1])"
proof -
  have t: "DecisionTree_train (DecisionTree_new (Some Gini) None (Some (- 1)))
     [[0], [1], [2], [3]] [0, 0, 1, 1 :: int] [] =
   (None,
    (DecisionTree_new (Some Gini) None (Some (- 1)))
      \<lparr> numFeaturesInt := Some (Suc 0),
        tree := Some (Node (Num (1 / 2)) 0 (Finite (3 / 2)) (Leaf (Num 0) 0) (Leaf (Num 0) 1)) \<rparr>, [])"
    using line_train [of "[]"] by simp
  have p: "DecisionTree_predict
             ((DecisionTree_new (Some Gini) None (Some (- 1)))
                \<lparr> numFeaturesInt := Some (Suc 0),
                  tree := Some (Node (Num (1 / 2)) 0 (Finite (3 / 2)) (Leaf (Num 0) 0) (Leaf (Num 0) 1)) \<rparr>)
             [[1 / 2], [5 / 2]] = Inr [0, 1 :: int]"
    by (simp add: DecisionTree_predict_def DecisionTree_predictSample_def featureBelow_def belowDouble_def)
  from forest_of_one_tree [OF t, of "[[1 / 2], [5 / 2]]"] p
  have "\<exists>rf. RandomForest_train (RandomForest_new (Some Gini) None (Some (- 1)) (Some 1)
                                  (Some False))
               [[0], [1], [2], [3]] [0, 0, 1, 1 :: int] [] = (None, rf, [])
            \<and> RandomForest_predict rf [[1 / 2], [5 / 2]] = Inr [Label 0, Label 1]"
    by auto
  with t show ?thesis
    by blast
qed

text \<open>
  C8. \<open>predict\<close> on a decision tree or on a random forest fresh from its constructor
  throws the untrained-model error, whatever the samples. After a \<open>train\<close> call that
  returned without throwing, \<open>predict\<close> throws nothing: it returns predictions.
\<close>

theorem predict_untrained_then_trained:
  "DecisionTree_predict (DecisionTree_new crit nf md) Q = Inl UntrainedModel
   \<and> RandomForest_predict (RandomForest_new crit nf md nt bs) Q = Inl UntrainedModel
   \<and> (DecisionTree_train dt X y g = (None, dt', g') \<longrightarrow>
        (\<exists>ps. DecisionTree_predict dt' Q = Inr ps))
   \<and> (RandomForest_train rf X y g = (None, rf', g') \<longrightarrow>
        (\<exists>ps. RandomForest_predict rf' Q = Inr ps))"
proof (intro conjI impI)
  show "DecisionTree_predict (DecisionTree_new crit nf md) Q = Inl UntrainedModel"
    by (simp add: DecisionTree_predict_def DecisionTree_new_def)
  show "RandomForest_predict (RandomForest_new crit nf md nt bs) Q = Inl UntrainedModel"
    by (simp add: RandomForest_predict_def RandomForest_new_def)
next
  assume "DecisionTree_train dt X y g = (None, dt', g')"
  then obtain rootNode where "tree dt' = Some rootNode"
    by (rule DecisionTree_train_success [THEN exE])
  then show "\<exists>ps. DecisionTree_predict dt' Q = Inr ps"
    by (simp add: DecisionTree_predict_trained(1))
next
  assume "RandomForest_train rf X y g = (None, rf', g')"
  then have "allTrained rf'"
    by (rule RandomForest_train_allTrained)
  then show "\<exists>ps. RandomForest_predict rf' Q = Inr ps"
    by (rule RandomForest_predict_allTrained)
qed

theorem predict_untrained_then_trained_witness:
  "DecisionTree_train (DecisionTree_new (Some Gini) None (Some (- 1)))
     [[0], [1], [2], [3]] [0, 0, 1, 1 :: int] [] =
   (None,
    (DecisionTree_new (Some Gini) None (Some (- 1)))
      \<lparr> numFeaturesInt := Some (Suc 0),
        tree := Some (Node (Num (1 / 2)) 0 (Finite (3 / 2)) (Leaf (Num 0) 0) (Leaf (Num 0) 1)) \<rparr>, [])
   \<and> (\<exists>ps. DecisionTree_predict
               ((DecisionTree_new (Some Gini) None (Some (- 1)))
                  \<lparr> numFeaturesInt := Some (Suc 0),
                    tree := Some (Node (Num (1 / 2)) 0 (Finite (3 / 2)) (Leaf (Num 0) (0 :: int))
                                    (Leaf (Num 0) 1)) \<rparr>)
               [[1 / 2]] = Inr ps)
   \<and> (\<exists>rf. RandomForest_train
               (RandomForest_new (Some Gini) None (Some (- 1)) (Some 1) (Some False))
               [[0], [1], [2], [3]] [0, 0, 1, 1 :: int] [] = (None, rf, [])
            \<and> (\<exists>ps. RandomForest_predict rf [[1 / 2]] = Inr ps))"
proof -
  let ?dt = "(DecisionTree_new (Some Gini) None (Some (- 1)))
      \<lparr> numFeaturesInt := Some (Suc 0),
        tree := Some (Node (Num (1 / 2)) 0 (Finite (3 / 2)) (Leaf (Num 0) (0 :: int)) (Leaf (Num 0) 1)) \<rparr>"
  let ?rf = "(RandomForest_new (Some Gini) None (Some (- 1)) (Some 1) (Some False))
               \<lparr> trees := Some [?dt] \<rparr>"
  have t: "DecisionTree_train (DecisionTree_new (Some Gini) None (Some (- 1)))
     [[0], [1], [2], [3]] [0, 0, 1, 1 :: int] [] = (None, ?dt, [])"
    using line_train [of "[]"] by simp
  note f = RandomForest_single_tree [OF t]
  note c = predict_untrained_then_trained
    [where dt = "DecisionTree_new (Some Gini) None (Some (- 1))" and dt' = ?dt
       and rf = "RandomForest_new (Some Gini) None (Some (- 1)) (Some 1) (Some False)"
       and rf' = ?rf and X = "[[0], [1], [2], [3]]" and y = "[0, 0, 1, 1 :: int]"
       and g = "[]" and g' = "[]" and Q = "[[1 / 2]]"]
  from c t have 1: "\<exists>ps. DecisionTree_predict ?dt [[1 / 2]] = Inr ps"
    by blast
  from c f have 2: "\<exists>ps. RandomForest_predict ?rf [[1 / 2]] = Inr ps"
    by blast
  from t 1 2 f show ?thesis
    by blast
qed

text \<open>
  C10. When the number of samples differs from the number of labels, \<open>train\<close> of a
  decision tree and \<open>train\<close> of a random forest throw the dimension error and leave the
  object and the random source exactly as they were: a tree trained before keeps its
  tree, a forest its list of trees, and \<open>predict\<close> returns after the failed call what
  it returned before.
\<close>

theorem train_mismatch_keeps_model:
  assumes "length X \<noteq> length y"
  shows "DecisionTree_train dt X y g = (Some DimensionMismatch, dt, g)
         \<and> tree (fst (snd (DecisionTree_train dt X y g))) = tree dt
         \<and> DecisionTree_predict (fst (snd (DecisionTree_train dt X y g))) Q
             = DecisionTree_predict dt Q
         \<and> RandomForest_train rf X y g = (Some DimensionMismatch, rf, g)
         \<and> trees (fst (snd (RandomForest_train rf X y g))) = trees rf
         \<and> RandomForest_predict (fst (snd (RandomForest_train rf X y g))) Q
             = RandomForest_predict rf Q"
  by (simp add: DecisionTree_train_mismatch [OF assms] RandomForest_train_mismatch [OF assms])

theorem train_mismatch_keeps_model_witness:
  "length [[0], [1 :: real]] \<noteq> length [0 :: int]
   \<and> DecisionTree_train
         ((DecisionTree_new None None None)
            \<lparr> tree := Some (Node (Num (1 / 2)) 0 (Finite (3 / 2)) (Leaf (Num 0) 0) (Leaf (Num 0) 1)) \<rparr>)
         [[0], [1]] [0 :: int] [4, 2]
       = (Some DimensionMismatch,
          (DecisionTree_new None None None)
            \<lparr> tree := Some (Node (Num (1 / 2)) 0 (Finite (3 / 2)) (Leaf (Num 0) 0) (Leaf (Num 0) 1)) \<rparr>,
          [4, 2])
   \<and> RandomForest_train
         ((RandomForest_new None None None None None)
            \<lparr> trees := Some [(DecisionTree_new None None None)
                               \<lparr> tree := Some (Leaf (Num 0) 1) \<rparr>] \<rparr>)
         [[0], [1]] [0 :: int] [4, 2]
       = (Some DimensionMismatch,
          (RandomForest_new None None None None None)
            \<lparr> trees := Some [(DecisionTree_new None None None)
                               \<lparr> tree := Some (Leaf (Num 0) 1) \<rparr>] \<rparr>,
          [4, 2])"
proof -
  have a: "length [[0], [1 :: real]] \<noteq> length [0 :: int]"
    by simp
  from train_mismatch_keeps_model [OF a] a show ?thesis
    by blast
qed

section \<open>Rounding: the impurity arithmetic in binary64\<close>

text \<open>
  The arithmetic of the source rounds: every \<open>+\<close>, \<open>-\<close>, \<open>*\<close> and \<open>/\<close> returns the double
  nearest to the exact result, ties going to the even significand. This section embeds
  \<open>gini\<close> and \<open>calculateWeightedImpurity\<close> once more, with that rounding, to settle what
  "exactly" means for the weighted impurity of a single group. A double has a 53-bit
  significand; the rounding is \<open>binary64\<close>, with the exponent range left unbounded, so
  overflow and subnormal numbers are not modelled here (a nonzero impurity of a group
  is not below the order of one over its size, and the sample counts are array lengths:
  both are far from either end of the range). Counts and lengths are integers below \<open>2^53\<close> and hence doubles.
  \<open>entropy\<close> is not embedded again: \<open>Math.log\<close> is only specified up to an
  implementation-approximated result.
\<close>

text \<open>The four arithmetic operators on doubles.\<close>

definition add64 :: "real \<Rightarrow> real \<Rightarrow> real" where
  "add64 a b = binary64 (a + b)"

definition sub64 :: "real \<Rightarrow> real \<Rightarrow> real" where
  "sub64 a b = binary64 (a - b)"

definition mul64 :: "real \<Rightarrow> real \<Rightarrow> real" where
  "mul64 a b = binary64 (a * b)"

definition div64 :: "real \<Rightarrow> real \<Rightarrow> real" where
  "div64 a b = binary64 (a / b)"

text \<open>\<open>gini\<close> and \<open>calculateWeightedImpurity\<close> of the source, operator by operator.\<close>

definition gini_binary64 :: "'l list \<Rightarrow> real" where
  "gini_binary64 ys =
     foldl (\<lambda>r label.
              let frac = div64 (real (length (filter (\<lambda>x. x = label) ys))) (real (length ys))
              in add64 r (mul64 frac (sub64 1 frac)))
       0 (unique ys)"

definition calculateWeightedImpurity_binary64 ::
  "'l list list \<Rightarrow> ('l list \<Rightarrow> real) \<Rightarrow> jsnum" where
  "calculateWeightedImpurity_binary64 grps impurityCallback =
     (let impurities = map impurityCallback grps;
          numElements = sum_list (map length grps)
      in if grps \<noteq> [] \<and> numElements = 0 then NaN
         else Num (foldl (\<lambda>r (a, group).
                            add64 r (div64 (mul64 a (real (length group))) (real numElements)))
                     0 (zip impurities grps)))"

lemma third_binary64: "div64 1 3 = 6004799503160661 / 18014398509481984"
  using binary64_below_two_power [of 54 "1 / 3"]
  by (simp add: div64_def roundHalfEven_def Let_def)

lemma two_thirds_binary64:
  "sub64 1 (6004799503160661 / 18014398509481984) = 3002399751580331 / 4503599627370496"
  using binary64_below_two_power [of 53 "1 - 6004799503160661 / 18014398509481984"]
  by (simp add: sub64_def roundHalfEven_def Let_def)

lemma summand_binary64:
  "mul64 (6004799503160661 / 18014398509481984) (3002399751580331 / 4503599627370496)
     = 8006399337547549 / 36028797018963968"
  using binary64_below_two_power
    [of 55 "(6004799503160661 / 18014398509481984) * (3002399751580331 / 4503599627370496)"]
  by (simp add: mul64_def roundHalfEven_def Let_def)

lemma first_sum_binary64:
  "add64 0 (8006399337547549 / 36028797018963968) = 8006399337547549 / 36028797018963968"
  using binary64_below_two_power [of 55 "8006399337547549 / 36028797018963968"]
  by (simp add: add64_def roundHalfEven_def Let_def)

lemma second_sum_binary64:
  "add64 (8006399337547549 / 36028797018963968) (8006399337547549 / 36028797018963968)
     = 8006399337547549 / 18014398509481984"
  using binary64_below_two_power
    [of 54 "8006399337547549 / 36028797018963968 + 8006399337547549 / 36028797018963968"]
  by (simp add: add64_def roundHalfEven_def Let_def)

lemma third_sum_binary64:
  "add64 (8006399337547549 / 18014398509481984) (8006399337547549 / 36028797018963968)
     = 3002399751580331 / 4503599627370496"
  using binary64_below_two_power
    [of 53 "8006399337547549 / 18014398509481984 + 8006399337547549 / 36028797018963968"]
  by (simp add: add64_def roundHalfEven_def Let_def)

lemma gini_binary64_three_classes:
  "gini_binary64 [0, 1, 2 :: int] = 3002399751580331 / 4503599627370496"
  by (simp add: gini_binary64_def third_binary64 two_thirds_binary64 summand_binary64
      first_sum_binary64 second_sum_binary64 third_sum_binary64)

lemma times_three_binary64: "mul64 (3002399751580331 / 4503599627370496) 3 = 2"
  using binary64_below_two_power [of 51 "(3002399751580331 / 4503599627370496) * 3"]
  by (simp add: mul64_def roundHalfEven_def Let_def)

lemma by_three_binary64: "div64 2 3 = 6004799503160661 / 9007199254740992"
  using binary64_below_two_power [of 53 "2 / 3"]
  by (simp add: div64_def roundHalfEven_def Let_def)

lemma last_sum_binary64:
  "add64 0 (6004799503160661 / 9007199254740992) = 6004799503160661 / 9007199254740992"
  using binary64_below_two_power [of 53 "6004799503160661 / 9007199254740992"]
  by (simp add: add64_def roundHalfEven_def Let_def)

lemma weighted_binary64_three_classes:
  "calculateWeightedImpurity_binary64 [[0, 1, 2 :: int]] gini_binary64
     = Num (6004799503160661 / 9007199254740992)"
  by (simp add: calculateWeightedImpurity_binary64_def gini_binary64_three_classes
      times_three_binary64 by_three_binary64 last_sum_binary64)

lemma rounding_chain:
  fixes A T Q W d1 d2 d3 :: real
  assumes "d1 \<le> A / 2 ^ 53" and "d2 \<le> T / 2 ^ 53" and "d3 \<le> Q / 2 ^ 53"
    and "T \<le> A + d1" and "Q \<le> T + d2" and "W \<le> d3 + d2 + d1" and "0 \<le> A"
  shows "W \<le> A / 2 ^ 51"
  using assms by simp

lemma three_roundings:
  assumes "0 < n"
  shows "\<bar>add64 0 (div64 (mul64 a n) n) - a\<bar> \<le> \<bar>a\<bar> / 2 ^ 51"
proof -
  define t where "t = binary64 (a * n) / n"
  define q where "q = binary64 (binary64 (a * n) / n)"
  define w where "w = binary64 (0 + q)"
  have "\<bar>binary64 (a * n) - a * n\<bar> \<le> \<bar>a * n\<bar> / 2 ^ 53"
    by (rule binary64_error)
  then have "\<bar>binary64 (a * n) - a * n\<bar> / n \<le> (\<bar>a * n\<bar> / 2 ^ 53) / n"
    using assms by (intro divide_right_mono) simp_all
  moreover have "\<bar>binary64 (a * n) - a * n\<bar> / n = \<bar>t - a\<bar>"
  proof -
    have "t - a = (binary64 (a * n) - a * n) / n"
      using assms by (simp add: t_def diff_divide_distrib)
    then show ?thesis
      using assms by (simp add: abs_divide)
  qed
  moreover have "(\<bar>a * n\<bar> / 2 ^ 53) / n = \<bar>a\<bar> / 2 ^ 53"
    using assms by (simp add: abs_mult)
  ultimately have 1: "\<bar>t - a\<bar> \<le> \<bar>a\<bar> / 2 ^ 53"
    by simp
  have 2: "\<bar>q - t\<bar> \<le> \<bar>t\<bar> / 2 ^ 53"
    unfolding q_def t_def by (rule binary64_error)
  have 3: "\<bar>w - q\<bar> \<le> \<bar>q\<bar> / 2 ^ 53"
    using binary64_error [of "0 + q"] by (simp add: w_def)
  have 4: "\<bar>t\<bar> \<le> \<bar>a\<bar> + \<bar>t - a\<bar>"
    and 5: "\<bar>q\<bar> \<le> \<bar>t\<bar> + \<bar>q - t\<bar>"
    and 6: "\<bar>w - a\<bar> \<le> \<bar>w - q\<bar> + \<bar>q - t\<bar> + \<bar>t - a\<bar>"
    by linarith+
  have "\<bar>w - a\<bar> \<le> \<bar>a\<bar> / 2 ^ 51"
    by (rule rounding_chain [OF 1 2 3 4 5 6]) simp
  then show ?thesis
    by (simp add: w_def q_def add64_def div64_def mul64_def)
qed

lemma weighted_single_group:
  "g \<noteq> [] \<Longrightarrow> calculateWeightedImpurity [g] impurityCallback = Num (impurityCallback g)"
  by (simp add: calculateWeightedImpurity_def)

lemma weighted_single_group_binary64:
  "g \<noteq> [] \<Longrightarrow>
   calculateWeightedImpurity_binary64 [g] impurityCallback =
     Num (add64 0 (div64 (mul64 (impurityCallback g) (real (length g))) (real (length g))))"
  by (simp add: calculateWeightedImpurity_binary64_def)

text \<open>
  C9, as the source has it. For a non-empty label group \<open>g\<close> the weighted impurity of
  \<open>[g]\<close> is the impurity of \<open>g\<close> in exact arithmetic, for both criteria; in double
  arithmetic it is \<open>impurity(g) * |g| / |g|\<close> with every operation rounded, which stays
  within a relative error of \<open>2^-51\<close> of what the impurity callback returned.
\<close>

theorem weighted_impurity_of_single_group:
  assumes "g \<noteq> []"
  shows "calculateImpurity Gini [g] = Num (gini g)
         \<and> calculateImpurity Entropy [g] = Num (entropy g)
         \<and> (\<exists>w. calculateWeightedImpurity_binary64 [g] impurityCallback = Num w
                \<and> \<bar>w - impurityCallback g\<bar> \<le> \<bar>impurityCallback g\<bar> / 2 ^ 51)"
proof -
  have "0 < real (length g)"
    using assms by simp
  then have "\<bar>add64 0 (div64 (mul64 (impurityCallback g) (real (length g))) (real (length g)))
              - impurityCallback g\<bar> \<le> \<bar>impurityCallback g\<bar> / 2 ^ 51"
    by (rule three_roundings)
  then show ?thesis
    by (simp add: calculateImpurity_def weighted_single_group [OF assms]
        weighted_single_group_binary64 [OF assms])
qed

theorem weighted_impurity_of_single_group_witness:
  "[0, 1, 2 :: int] \<noteq> []
   \<and> calculateImpurity Gini [[0, 1, 2 :: int]] = Num (gini [0, 1, 2 :: int])
   \<and> calculateImpurity Entropy [[0, 1, 2 :: int]] = Num (entropy [0, 1, 2 :: int])
   \<and> (\<exists>w. calculateWeightedImpurity_binary64 [[0, 1, 2 :: int]] gini_binary64 = Num w
          \<and> \<bar>w - gini_binary64 [0, 1, 2 :: int]\<bar> \<le> \<bar>gini_binary64 [0, 1, 2 :: int]\<bar> / 2 ^ 51)"
proof -
  have a: "[0, 1, 2 :: int] \<noteq> []"
    by simp
  from weighted_impurity_of_single_group [OF a, of gini_binary64] a show ?thesis
    by blast
qed

text \<open>
  C9, as stated, fails under the rounding of the source. For the labels \<open>[0, 1, 2]\<close>
  \<open>gini\<close> returns the double \<open>0.6666666666666667\<close>, and the weighted impurity of the
  single group is the double \<open>0.6666666666666666\<close>, one unit in the last place below.
\<close>

theorem weighted_impurity_counterexample:
  "gini_binary64 [0, 1, 2 :: int] = 3002399751580331 / 4503599627370496
   \<and> calculateWeightedImpurity_binary64 [[0, 1, 2 :: int]] gini_binary64
       = Num (6004799503160661 / 9007199254740992)
   \<and> calculateWeightedImpurity_binary64 [[0, 1, 2 :: int]] gini_binary64
       \<noteq> Num (gini_binary64 [0, 1, 2 :: int])"
  by (simp add: gini_binary64_three_classes weighted_binary64_three_classes)

lemma unique_single:
  assumes "set ys = {c}"
  shows "unique ys = [c]"
proof -
  have "distinct (unique ys)" and "set (unique ys) = {c}"
    using assms by (simp_all add: distinct_unique set_unique)
  then show ?thesis
    by (cases "unique ys") (auto simp: subset_singleton_iff split: if_splits)
qed

lemma unique_pair:
  assumes "set ys = {a, b}" and "a \<noteq> b"
  shows "unique ys = [a, b] \<or> unique ys = [b, a]"
proof -
  have d: "distinct (unique ys)" and s: "set (unique ys) = {a, b}"
    using assms by (simp_all add: distinct_unique set_unique)
  then have "length (unique ys) = 2"
    using assms(2) distinct_card [of "unique ys"] by simp
  then obtain x y where xy: "unique ys = [x, y]"
    by (auto simp: length_Suc_conv numeral_2_eq_2)
  with d s assms(2) show ?thesis
    by (auto simp: doubleton_eq_iff)
qed

text \<open>
  The values 0 and \<open>0.5\<close> of \<open>gini\<close> do not depend on the idealisation: with every
  operation rounded, \<open>gini\<close> still returns exactly 0 on a single class and exactly \<open>0.5\<close>
  on two classes in equal numbers.
\<close>

lemma gini_binary64_pure:
  assumes "set ys = {c}"
  shows "gini_binary64 ys = 0"
proof -
  have "filter (\<lambda>x. x = c) ys = ys"
    using assms by (auto intro: filter_True)
  moreover have "ys \<noteq> []"
    using assms by auto
  ultimately show ?thesis
    by (simp add: gini_binary64_def unique_single [OF assms] Let_def div64_def sub64_def
        mul64_def add64_def binary64_simple)
qed

lemma gini_binary64_balanced:
  assumes "set ys = {a, b}" and "a \<noteq> b"
    and "length (filter (\<lambda>x. x = a) ys) = length (filter (\<lambda>x. x = b) ys)"
  shows "gini_binary64 ys = 1 / 2"
proof -
  have fa: "real (length (filter (\<lambda>x. x = a) ys)) / real (length ys) = 1 / 2"
    and fb: "real (length (filter (\<lambda>x. x = b) ys)) / real (length ys) = 1 / 2"
    by (rule frequency_balanced(1) [OF assms, unfolded frequency_def],
        rule frequency_balanced(2) [OF assms, unfolded frequency_def])
  have "foldl (\<lambda>r label.
              let frac = div64 (real (length (filter (\<lambda>x. x = label) ys))) (real (length ys))
              in add64 r (mul64 frac (sub64 1 frac))) 0 xs = 1 / 2"
    if "xs = [a, b] \<or> xs = [b, a]" for xs
    using that
    by (auto simp: Let_def fa fb div64_def sub64_def mul64_def add64_def binary64_simple)
  then show ?thesis
    unfolding gini_binary64_def by (rule meta_mp [OF _ unique_pair [OF assms(1,2)]])
qed

end
